theory Spec2Isabelle
  imports Complex_Main "HOL-Library.Word"
begin

unbundle bit_operations_syntax

section \<open>Errors raised by the Python source\<close>

datatype py_error = ValueError | TypeError | IndexError | KeyError | AssertionError | ZeroDivisionError

section \<open>genome.py\<close>

text \<open>
  \<^verbatim>\<open>bin(a)[2:]\<close> for a non-negative Python integer: its binary digits, most significant
  first, with the single digit 0 for the number 0.
\<close>

fun bin_digits :: "nat \<Rightarrow> nat list" where
  "bin_digits n = (if n < 2 then [n] else bin_digits (n div 2) @ [n mod 2])"

declare bin_digits.simps [simp del]

text \<open>
  \<^verbatim>\<open>base10_as_bitarray(a) = np.array(list(map(int, bin(a)[2:])))\<close>.
  For a negative \<open>a\<close> the text of \<^verbatim>\<open>bin(a)\<close> is \<^verbatim>\<open>-0b...\<close>, the slice starts with the
  letter b and \<^verbatim>\<open>int('b')\<close> raises ValueError. The digits are stored in a numpy array
  of 64-bit signed integers.
\<close>

definition base10_as_bitarray :: "int \<Rightarrow> py_error + 64 word list" where
  "base10_as_bitarray a =
     (if a < 0 then Inl ValueError else Inr (map of_nat (bin_digits (nat a))))"

text \<open>
  \<^verbatim>\<open>bitstring_as_base10(a) = np.sum(a * 2**np.arange(len(a))[::-1])\<close>.
  \<^verbatim>\<open>np.arange\<close> yields 64-bit signed integers, so the powers of two, the products and
  the sum are all computed in 64-bit arithmetic that wraps around silently.
\<close>

definition bitstring_as_base10 :: "64 word list \<Rightarrow> 64 word" where
  "bitstring_as_base10 a =
     sum_list (map2 (*) a (map (\<lambda>k. 2 ^ k) (rev [0..<length a])))"

text \<open>\<^verbatim>\<open>hamming_distance(a, b) = bin(a ^ b).count('1')\<close> on non-negative integers.\<close>

definition hamming_distance :: "nat \<Rightarrow> nat \<Rightarrow> nat" where
  "hamming_distance a b = count_list (bin_digits (a XOR b)) 1"

text \<open>\<^verbatim>\<open>is_producer(g, bits) = (g & 2**bits == 2**bits)\<close>.\<close>

definition is_producer :: "nat \<Rightarrow> nat \<Rightarrow> bool" where
  "is_producer g bits = (g AND 2 ^ bits = 2 ^ bits)"

text \<open>Positional value of a digit sequence, most significant digit first.\<close>

fun digits_value :: "nat list \<Rightarrow> nat" where
  "digits_value [] = 0"
| "digits_value (d # ds) = d * 2 ^ length ds + digits_value ds"

text \<open>
  Decoding a genotype and encoding the result again, the outcome read as the Python
  integer that the 64-bit numpy scalar denotes.
\<close>

definition decode_then_encode :: "int \<Rightarrow> py_error + int" where
  "decode_then_encode g =
     (case base10_as_bitarray g of
        Inl e \<Rightarrow> Inl e
      | Inr a \<Rightarrow> Inr (sint (bitstring_as_base10 a)))"

section \<open>Configuration\<close>

text \<open>
  The options that the engine reads from its configuration object. Floating-point
  options are idealised as real numbers; integer options are Python integers.
\<close>

record Config =
  cfg_genome_length :: int
  cfg_base_fitness :: real
  cfg_production_cost :: real
  cfg_fitness_exponential :: bool
  cfg_fitness_avg_effect :: real
  cfg_fitness_min_effect :: real
  cfg_mutation_rate_social :: real
  cfg_mutation_rate_adaptation :: real
  cfg_mutation_rate_tolerance :: real
  cfg_capacity_max :: int
  cfg_capacity_min :: int
  cfg_initial_producer_proportion :: real
  cfg_dilution_stochastic :: bool
  cfg_initial_state :: string
  cfg_migration_rate :: real
  cfg_migration_dest :: string
  cfg_migration_p_far :: real
  cfg_topology :: string
  cfg_log_frequency :: int
  cfg_mix_frequency :: int
  cfg_env_change_frequency :: int
  cfg_log_demographics :: bool
  cfg_log_genotypes :: bool
  cfg_log_fitness :: bool

section \<open>numpy's random generator\<close>

text \<open>
  The global generator of numpy is a stream of draws of which the program reads the
  next unread one; the position in the stream is part of the program state. What the
  \<open>k\<close>-th draw yields depends on the sampler that reads it and on the sampler's
  arguments. No distribution is modelled: a statement that holds for every
  \<open>random_source\<close> holds for every outcome of the sampling.
\<close>

record random_source =
  exponential_draw :: "real \<Rightarrow> nat \<Rightarrow> real"
  uniform_draw :: "real \<Rightarrow> real \<Rightarrow> nat \<Rightarrow> real"
  binomial_draw :: "int \<Rightarrow> real \<Rightarrow> nat \<Rightarrow> int"
  integer_draw :: "nat \<Rightarrow> nat"

text \<open>\<^verbatim>\<open>np.random.exponential(scale, size)\<close> and \<^verbatim>\<open>np.random.uniform(low, high, size)\<close>.\<close>

definition np_random_exponential :: "random_source \<Rightarrow> real \<Rightarrow> nat \<Rightarrow> nat \<Rightarrow> real list \<times> nat" where
  "np_random_exponential src scale n r =
     (map (exponential_draw src scale) [r..<r + n], r + n)"

definition np_random_uniform :: "random_source \<Rightarrow> real \<Rightarrow> real \<Rightarrow> nat \<Rightarrow> nat \<Rightarrow> real list \<times> nat" where
  "np_random_uniform src low high n r =
     (map (uniform_draw src low high) [r..<r + n], r + n)"

section \<open>Metapopulation.build_fitness_landscape\<close>

text \<open>Running a fallible step over a list, stopping at the first error.\<close>

fun map_err :: "('a \<Rightarrow> py_error + 'b) \<Rightarrow> 'a list \<Rightarrow> py_error + 'b list" where
  "map_err f [] = Inr []"
| "map_err f (x # xs) =
     (case f x of
        Inl e \<Rightarrow> Inl e
      | Inr y \<Rightarrow> (case map_err f xs of Inl e \<Rightarrow> Inl e | Inr ys \<Rightarrow> Inr (y # ys)))"

text \<open>
  \<^verbatim>\<open>np.append(np.zeros(len(effects) - len(genotype)), genotype)\<close>: \<^verbatim>\<open>np.zeros\<close> raises
  ValueError for a negative length; the result is an array of floats.
\<close>

definition pad_genotype :: "nat \<Rightarrow> 64 word list \<Rightarrow> py_error + real list" where
  "pad_genotype n genotype =
     (if n < length genotype then Inl ValueError
      else Inr (replicate (n - length genotype) 0 @ map (\<lambda>b. real_of_int (sint b)) genotype))"

text \<open>
  The body of the loop: \<^verbatim>\<open>landscape[i] = sum(genotype * effects) + (base_fitness + production_cost)\<close>.
  The product of two arrays is elementwise and needs equal lengths.
\<close>

definition landscape_entry :: "real list \<Rightarrow> real \<Rightarrow> real \<Rightarrow> nat \<Rightarrow> py_error + real" where
  "landscape_entry effects base_fitness production_cost i =
     (case base10_as_bitarray (int i) of
        Inl e \<Rightarrow> Inl e
      | Inr bits \<Rightarrow>
          (case pad_genotype (length effects) bits of
             Inl e \<Rightarrow> Inl e
           | Inr genotype \<Rightarrow>
               Inr (sum_list (map2 (*) genotype effects) + (base_fitness + production_cost))))"

text \<open>
  The whole method. The result is the landscape together with the new position of the
  random generator.
\<close>

definition build_fitness_landscape :: "random_source \<Rightarrow> Config \<Rightarrow> nat \<Rightarrow> py_error + real list \<times> nat" where
  "build_fitness_landscape src cfg r =
     (if \<not> cfg_genome_length cfg \<ge> 0 then Inl AssertionError
      else if \<not> cfg_base_fitness cfg \<ge> 0 then Inl AssertionError
      else
        let genome_length = nat (cfg_genome_length cfg);
            (drawn, r') =
              (if cfg_fitness_exponential cfg
               then np_random_exponential src (cfg_fitness_avg_effect cfg) genome_length r
               else np_random_uniform src (cfg_fitness_min_effect cfg)
                      (2 * cfg_fitness_avg_effect cfg - cfg_fitness_min_effect cfg) genome_length r);
            effects = (- 1 * cfg_production_cost cfg) # drawn
        in case map_err (landscape_entry effects (cfg_base_fitness cfg) (cfg_production_cost cfg))
                  [0..<2 ^ (genome_length + 1)] of
             Inl e \<Rightarrow> Inl e
           | Inr landscape \<Rightarrow> Inr (landscape, r'))"

section \<open>Metapopulation.get_mutation_probabilities\<close>

text \<open>Elementwise operations on matrices, stored as lists of rows.\<close>

definition mat_map :: "('a \<Rightarrow> 'b) \<Rightarrow> 'a list list \<Rightarrow> 'b list list" where
  "mat_map f A = map (map f) A"

definition mat_map2 :: "('a \<Rightarrow> 'b \<Rightarrow> 'c) \<Rightarrow> 'a list list \<Rightarrow> 'b list list \<Rightarrow> 'c list list" where
  "mat_map2 f A B = map2 (map2 f) A B"

text \<open>
  \<^verbatim>\<open>np.power(x, k)\<close> for a float base and an integer exponent. (For a zero base and a
  negative exponent numpy yields infinity; the exponents of this program are never
  negative.)
\<close>

definition npower :: "real \<Rightarrow> int \<Rightarrow> real" where
  "npower x k = power_int x k"

text \<open>
  The matrix \<open>S\<close> of the source: \<open>2 ^ L\<close> copies of the row \<open>0...0 1...1\<close> stacked on
  \<open>2 ^ L\<close> copies of the row \<open>1...1 0...0\<close>.
\<close>

definition social_matrix :: "nat \<Rightarrow> int list list" where
  "social_matrix L =
     replicate (2 ^ L) (replicate (2 ^ L) 0 @ replicate (2 ^ L) 1) @
     replicate (2 ^ L) (replicate (2 ^ L) 1 @ replicate (2 ^ L) 0)"

text \<open>
  \<^verbatim>\<open>hamming_v(xx, yy)\<close> for \<^verbatim>\<open>xx, yy = np.meshgrid(genotypes, genotypes)\<close>: every row of
  \<open>xx\<close> is the list of genotypes, row \<open>r\<close> of \<open>yy\<close> repeats genotype \<open>r\<close>.
\<close>

definition hamming_distances :: "nat \<Rightarrow> int list list" where
  "hamming_distances L =
     (let genotypes = [0..<2 ^ (L + 1)];
          xx = replicate (length genotypes) genotypes;
          yy = map (\<lambda>g. replicate (length genotypes) g) genotypes
      in mat_map2 (\<lambda>a b. int (hamming_distance a b)) xx yy)"

text \<open>
  The whole method. A negative genome length makes \<^verbatim>\<open>2**genome_length\<close> a float, and
  repeating a list a float number of times raises TypeError.
\<close>

definition get_mutation_probabilities :: "Config \<Rightarrow> py_error + real list list" where
  "get_mutation_probabilities cfg =
     (if cfg_genome_length cfg < 0 then Inl TypeError
      else
        let genome_length = nat (cfg_genome_length cfg);
            mutation_rate_social = cfg_mutation_rate_social cfg;
            mutation_rate_adaptation = cfg_mutation_rate_adaptation cfg;
            S = social_matrix genome_length;
            nonsocial_hd = mat_map2 (-) (hamming_distances genome_length) S;
            mr = mat_map2 (*)
                   (mat_map2 (*)
                      (mat_map2 (*)
                         (mat_map (\<lambda>h. npower (1 - mutation_rate_adaptation) (int genome_length - h))
                            nonsocial_hd)
                         (mat_map (npower mutation_rate_adaptation) nonsocial_hd))
                      (mat_map (\<lambda>s. npower (1 - mutation_rate_social) (of_bool (s = 0))) S))
                   (mat_map (npower mutation_rate_social) S)
        in Inr mr)"

text \<open>
  The digits of \<open>i\<close> at a fixed width \<open>n\<close>, most significant first: what padding the
  minimal expansion with zeros yields when \<open>i < 2 ^ n\<close>.
\<close>

fun fixed_digits :: "nat \<Rightarrow> nat \<Rightarrow> nat list" where
  "fixed_digits 0 i = []"
| "fixed_digits (Suc n) i = fixed_digits n (i div 2) @ [i mod 2]"

section \<open>A concrete configuration and random source\<close>

text \<open>Used to instantiate the theorems below at concrete inputs.\<close>

definition example_config :: Config where
  "example_config =
     \<lparr>cfg_genome_length = 1, cfg_base_fitness = 1, cfg_production_cost = 3 / 10,
      cfg_fitness_exponential = True, cfg_fitness_avg_effect = 1 / 2, cfg_fitness_min_effect = 0,
      cfg_mutation_rate_social = 1 / 100, cfg_mutation_rate_adaptation = 1 / 10,
      cfg_mutation_rate_tolerance = 1 / 10, cfg_capacity_max = 10, cfg_capacity_min = 4,
      cfg_initial_producer_proportion = 1 / 2, cfg_dilution_stochastic = False,
      cfg_initial_state = ''corners'', cfg_migration_rate = 1 / 2,
      cfg_migration_dest = ''single'', cfg_migration_p_far = 0, cfg_topology = ''complete'',
      cfg_log_frequency = 1, cfg_mix_frequency = 0, cfg_env_change_frequency = 5,
      cfg_log_demographics = True, cfg_log_genotypes = False, cfg_log_fitness = False\<rparr>"

definition example_source :: random_source where
  "example_source =
     \<lparr>exponential_draw = (\<lambda>scale k. scale), uniform_draw = (\<lambda>low high k. low),
      binomial_draw = (\<lambda>n p k. 0), integer_draw = (\<lambda>k. k)\<rparr>"

section \<open>Auxiliary notions for the mutation matrix\<close>

text \<open>The number of ones in the binary expansion, as \<^verbatim>\<open>bin(n).count('1')\<close> computes it.\<close>

definition popcount :: "nat \<Rightarrow> nat" where
  "popcount n = count_list (bin_digits n) 1"

text \<open>
  The probability that \<open>d\<close> given loci out of \<open>L\<close> flip and the others do not, at
  rate \<open>m\<close> per locus.
\<close>

definition flip_weight :: "real \<Rightarrow> nat \<Rightarrow> nat \<Rightarrow> real" where
  "flip_weight m L d = (1 - m) ^ (L - d) * m ^ d"

text \<open>The entries of the matrix \<open>S\<close>, for row and column indices below \<open>2 ^ (L + 1)\<close>.\<close>

definition social_differs :: "nat \<Rightarrow> nat \<Rightarrow> nat \<Rightarrow> int" where
  "social_differs L i j = (if (i < 2 ^ L) = (j < 2 ^ L) then 0 else 1)"

text \<open>The entry \<open>[i][j]\<close> that the elementwise expression of the method computes.\<close>

definition mutation_entry :: "Config \<Rightarrow> nat \<Rightarrow> nat \<Rightarrow> real" where
  "mutation_entry cfg i j =
     (let L = nat (cfg_genome_length cfg);
          S = social_differs L i j;
          H_a = int (hamming_distance j i) - S
      in npower (1 - cfg_mutation_rate_adaptation cfg) (int L - H_a) *
         npower (cfg_mutation_rate_adaptation cfg) H_a *
         npower (1 - cfg_mutation_rate_social cfg) (1 - S) *
         npower (cfg_mutation_rate_social cfg) S)"

text \<open>
  The entry as the specification words it: \<open>H_a\<close> is the Hamming distance of the
  adaptation loci, \<open>S\<close> tells whether the social loci differ.
\<close>

definition spec_mutation_entry :: "real \<Rightarrow> real \<Rightarrow> nat \<Rightarrow> nat \<Rightarrow> nat \<Rightarrow> real" where
  "spec_mutation_entry m_s m_a L i j =
     (let H_a = hamming_distance (take_bit L i) (take_bit L j);
          S = (if is_producer i L = is_producer j L then 0 else 1 :: nat)
      in (1 - m_a) ^ (L - H_a) * m_a ^ H_a * (1 - m_s) ^ (1 - S) * m_s ^ S)"

section \<open>Population (external collaborator)\<close>

text \<open>
  Population.py is not among the sources. A population is represented by the two
  vectors that the engine's contract with it speaks of: the live abundances, indexed by
  genotype, and the buffer of immigrants that arrived since the last census. Counts are
  Python integers.
\<close>

record Population =
  abundances :: "int list"
  immigrants :: "int list"

text \<open>
  Modelled from the spec: Population.py is missing; a newly constructed population is
  empty, with one entry per genotype in \<open>[0, 2 ^ (L + 1))\<close> and nothing pending.
\<close>

definition Population_new :: "Config \<Rightarrow> Population" where
  "Population_new cfg =
     \<lparr>abundances = replicate (2 ^ (nat (cfg_genome_length cfg) + 1)) 0,
      immigrants = replicate (2 ^ (nat (cfg_genome_length cfg) + 1)) 0\<rparr>"

text \<open>
  Modelled from the spec: Population.add_immigrants is missing; it only adds the delta
  to the buffer of pending immigrants and leaves the live abundances alone.
\<close>

definition add_immigrants :: "int list \<Rightarrow> Population \<Rightarrow> Population" where
  "add_immigrants delta p = p\<lparr>immigrants := map2 (+) (immigrants p) delta\<rparr>"

text \<open>
  Modelled from the spec: Population.remove_emigrants is missing; it subtracts the delta
  from the live abundances immediately.
\<close>

definition remove_emigrants :: "int list \<Rightarrow> Population \<Rightarrow> Population" where
  "remove_emigrants delta p = p\<lparr>abundances := map2 (-) (abundances p) delta\<rparr>"

text \<open>
  Modelled from the spec: Population.census is missing; it merges the buffered immigrants
  into the live abundances and empties the buffer.
\<close>

definition Population_census :: "Population \<Rightarrow> Population" where
  "Population_census p =
     p\<lparr>abundances := map2 (+) (abundances p) (immigrants p),
       immigrants := replicate (length (immigrants p)) 0\<rparr>"

text \<open>
  \<^verbatim>\<open>abundances[i] = v\<close> on a numpy array with a non-negative index: IndexError when
  the index is out of range.
\<close>

definition set_abundance :: "nat \<Rightarrow> int \<Rightarrow> Population \<Rightarrow> py_error + Population" where
  "set_abundance i v p =
     (if i < length (abundances p) then Inr (p\<lparr>abundances := (abundances p)[i := v]\<rparr>)
      else Inl IndexError)"

section \<open>The engine state\<close>

text \<open>
  Calls that the engine makes on its collaborators (methods of a node's population,
  assignments to a population's abundances, updates of a log sink), in the order in
  which they happen.
\<close>

datatype call =
    PopGrow int
  | PopMutate int
  | PopDilute int bool
  | PopBottleneck int real
  | PopResetLoci int
  | PopSelectMigrants int real
  | PopAddImmigrants int
  | PopRemoveEmigrants int
  | PopCensus int
  | PopSetAbundances int
  | SinkUpdate string int

text \<open>
  The attributes of a Metapopulation object. The topology is a networkx graph: \<open>nodes\<close>
  lists its node labels in iteration order, \<open>neighbors\<close> gives the adjacency lists, and
  \<open>population\<close> is the \<^verbatim>\<open>'population'\<close> entry of the nodes' data dictionaries. The last
  two fields are not attributes: \<open>rng\<close> is the position of numpy's global generator and
  \<open>calls\<close> records the calls made on collaborators so far.
\<close>

record Metapopulation =
  config :: Config
  time :: int
  migration_rate :: real
  migration_dest :: string
  migration_p_far :: real
  topology_type :: string
  log_frequency :: int
  dilution_stochastic :: bool
  nodes :: "int list"
  neighbors :: "int \<Rightarrow> int list"
  population :: "int \<Rightarrow> Population option"
  mutation_probs :: "real list list"
  fitness_landscape :: "real list"
  mix_frequency :: int
  environment_changed :: bool
  env_change_frequency :: int
  log_objects :: "string list"
  rng :: nat
  calls :: "call list"

text \<open>
  The methods of Population whose effect the engine's contract leaves open. Each may
  read the whole engine (a population holds a reference to its metapopulation) and the
  random generator; it yields the new state of the population it is called on (or, for
  \<open>select_migrants\<close>, the selected delta) and the new position of the generator. That
  a method of one population changes neither the engine's attributes nor another
  population is an assumption of this model.
\<close>

record population_methods =
  pop_grow :: "Metapopulation \<Rightarrow> Population \<Rightarrow> Population \<times> nat"
  pop_mutate :: "Metapopulation \<Rightarrow> Population \<Rightarrow> Population \<times> nat"
  pop_dilute :: "Metapopulation \<Rightarrow> bool \<Rightarrow> Population \<Rightarrow> Population \<times> nat"
  pop_bottleneck :: "Metapopulation \<Rightarrow> real \<Rightarrow> Population \<Rightarrow> Population \<times> nat"
  pop_reset_loci :: "Metapopulation \<Rightarrow> Population \<Rightarrow> Population \<times> nat"
  pop_select_migrants :: "Metapopulation \<Rightarrow> real \<Rightarrow> Population \<Rightarrow> int list \<times> nat"
  pop_len :: "Population \<Rightarrow> int"
  pop_num_producers :: "Population \<Rightarrow> int"

section \<open>numpy samplers used by the engine\<close>

text \<open>\<^verbatim>\<open>binomial(n, p)\<close> for a scalar \<open>n\<close>.\<close>

definition binomial :: "random_source \<Rightarrow> int \<Rightarrow> real \<Rightarrow> nat \<Rightarrow> int \<times> nat" where
  "binomial src n p r = (binomial_draw src n p r, r + 1)"

text \<open>\<^verbatim>\<open>binomial(ns, p)\<close> for an array \<open>ns\<close>: one draw per entry.\<close>

definition binomial_array :: "random_source \<Rightarrow> int list \<Rightarrow> real \<Rightarrow> nat \<Rightarrow> int list \<times> nat" where
  "binomial_array src ns p r =
     (map (\<lambda>(k, n). binomial_draw src n p (r + k)) (zip [0..<length ns] ns), r + length ns)"

text \<open>\<^verbatim>\<open>random_integers(low, high)\<close>: an integer in \<open>[low, high]\<close>; ValueError if there is none.\<close>

definition random_integers :: "random_source \<Rightarrow> int \<Rightarrow> int \<Rightarrow> nat \<Rightarrow> py_error + int \<times> nat" where
  "random_integers src low high r =
     (if high < low then Inl ValueError
      else Inr (low + int (integer_draw src r mod nat (high - low + 1)), r + 1))"

text \<open>\<^verbatim>\<open>numpy.random.choice(xs)\<close>: an element of \<open>xs\<close>; ValueError if \<open>xs\<close> is empty.\<close>

definition nchoice :: "random_source \<Rightarrow> int list \<Rightarrow> nat \<Rightarrow> py_error + int \<times> nat" where
  "nchoice src xs r =
     (if xs = [] then Inl ValueError
      else Inr (xs ! (integer_draw src r mod length xs), r + 1))"

section \<open>Iteration over the nodes\<close>

text \<open>A \<^verbatim>\<open>for\<close> loop whose body may raise: the first exception ends the loop.\<close>

fun for_each :: "('a \<Rightarrow> 's \<Rightarrow> py_error + 's) \<Rightarrow> 'a list \<Rightarrow> 's \<Rightarrow> py_error + 's" where
  "for_each body [] s = Inr s"
| "for_each body (x # xs) s =
     (case body x s of Inl e \<Rightarrow> Inl e | Inr s' \<Rightarrow> for_each body xs s')"

text \<open>
  \<^verbatim>\<open>d['population'].method(...)\<close>: look the population of node \<open>n\<close> up, run the method
  on it, store the population's new state and record the call.
\<close>

definition call_population ::
  "(Metapopulation \<Rightarrow> Population \<Rightarrow> Population \<times> nat) \<Rightarrow> call \<Rightarrow> int \<Rightarrow>
   Metapopulation \<Rightarrow> py_error + Metapopulation" where
  "call_population method c n s =
     (case population s n of
        None \<Rightarrow> Inl KeyError
      | Some p \<Rightarrow>
          (case method s p of
             (p', r) \<Rightarrow>
               Inr (s\<lparr>population := (population s)(n \<mapsto> p'), rng := r, calls := calls s @ [c]\<rparr>)))"

section \<open>Metapopulation.dilute, grow, mutate, census\<close>

definition dilute :: "population_methods \<Rightarrow> bool \<Rightarrow> Metapopulation \<Rightarrow> py_error + Metapopulation" where
  "dilute ops stochastic s =
     for_each (\<lambda>n. call_population (\<lambda>m. pop_dilute ops m stochastic) (PopDilute n stochastic) n)
       (nodes s) s"

definition grow :: "population_methods \<Rightarrow> Metapopulation \<Rightarrow> py_error + Metapopulation" where
  "grow ops s = for_each (\<lambda>n. call_population (pop_grow ops) (PopGrow n) n) (nodes s) s"

definition mutate :: "population_methods \<Rightarrow> Metapopulation \<Rightarrow> py_error + Metapopulation" where
  "mutate ops s = for_each (\<lambda>n. call_population (pop_mutate ops) (PopMutate n) n) (nodes s) s"

definition census :: "Metapopulation \<Rightarrow> py_error + Metapopulation" where
  "census s =
     for_each (\<lambda>n. call_population (\<lambda>m p. (Population_census p, rng m)) (PopCensus n) n)
       (nodes s) s"

section \<open>Metapopulation.migrate\<close>

text \<open>\<^verbatim>\<open>str.lower()\<close> on ASCII text.\<close>

definition lower_char :: "char \<Rightarrow> char" where
  "lower_char c =
     (let k = (of_char c :: nat) in if 65 \<le> k \<and> k \<le> 90 then char_of (k + 32) else c)"

definition lower :: "string \<Rightarrow> string" where
  "lower s = map lower_char s"

text \<open>
  \<^verbatim>\<open>neighbor = self.topology.node[dst]['population']\<close>,
  \<^verbatim>\<open>neighbor.add_immigrants(migrants)\<close>, \<^verbatim>\<open>pop.remove_emigrants(migrants)\<close>, where \<open>pop\<close>
  is the population of the node \<open>n\<close> being processed. Source and destination may be the
  same object.
\<close>

definition deliver :: "int \<Rightarrow> int \<Rightarrow> int list \<Rightarrow> Metapopulation \<Rightarrow> py_error + Metapopulation" where
  "deliver dst n migrants s =
     (case population s dst of
        None \<Rightarrow> Inl KeyError
      | Some neighbor \<Rightarrow>
          let s1 = s\<lparr>population := (population s)(dst \<mapsto> add_immigrants migrants neighbor),
                     calls := calls s @ [PopAddImmigrants dst]\<rparr>
          in (case population s1 n of
                None \<Rightarrow> Inl KeyError
              | Some pop \<Rightarrow>
                  Inr (s1\<lparr>population := (population s1)(n \<mapsto> remove_emigrants migrants pop),
                          calls := calls s1 @ [PopRemoveEmigrants n]\<rparr>)))"

text \<open>\<^verbatim>\<open>pop.select_migrants(migration_rate=rate)\<close> on the population of node \<open>n\<close>.\<close>

definition select_migrants ::
  "population_methods \<Rightarrow> int \<Rightarrow> real \<Rightarrow> Metapopulation \<Rightarrow> py_error + int list \<times> Metapopulation" where
  "select_migrants ops n rate s =
     (case population s n of
        None \<Rightarrow> Inl KeyError
      | Some pop \<Rightarrow>
          (case pop_select_migrants ops s rate pop of
             (migrants, r) \<Rightarrow>
               Inr (migrants, s\<lparr>rng := r, calls := calls s @ [PopSelectMigrants n rate]\<rparr>)))"

text \<open>The branch for destination mode \<^verbatim>\<open>'single'\<close>.\<close>

definition migrate_single ::
  "random_source \<Rightarrow> population_methods \<Rightarrow> int \<Rightarrow> Metapopulation \<Rightarrow> py_error + Metapopulation" where
  "migrate_single src ops n s =
     (case select_migrants ops n (migration_rate s) s of
        Inl e \<Rightarrow> Inl e
      | Inr (migrants, s1) \<Rightarrow>
          (case binomial src 1 (migration_p_far s1) (rng s1) of
             (far, r2) \<Rightarrow>
               (case (if far = 1
                      then random_integers src 0 (int (length (nodes s1)) - 1) r2
                      else nchoice src (neighbors s1 n) r2) of
                  Inl e \<Rightarrow> Inl e
                | Inr (neighbor_index, r3) \<Rightarrow> deliver neighbor_index n migrants (s1\<lparr>rng := r3\<rparr>))))"

text \<open>
  One round of the inner loop for destination mode \<^verbatim>\<open>'neighbors'\<close>; \<open>num_neighbors\<close>
  is the degree of node \<open>n\<close>.
\<close>

definition migrate_to_neighbor ::
  "random_source \<Rightarrow> population_methods \<Rightarrow> int \<Rightarrow> nat \<Rightarrow> int \<Rightarrow> Metapopulation \<Rightarrow>
   py_error + Metapopulation" where
  "migrate_to_neighbor src ops n num_neighbors neighbor_node s =
     (case binomial src 1 (migration_p_far s) (rng s) of
        (far, r1) \<Rightarrow>
          (case (if far = 1
                 then random_integers src 0 (int (length (nodes s)) - 1) r1
                 else Inr (neighbor_node, r1)) of
             Inl e \<Rightarrow> Inl e
           | Inr (dst, r2) \<Rightarrow>
               if num_neighbors = 0 then Inl ZeroDivisionError
               else (case select_migrants ops n (migration_rate s / real num_neighbors)
                            (s\<lparr>rng := r2\<rparr>) of
                       Inl e \<Rightarrow> Inl e
                     | Inr (migrants, s3) \<Rightarrow> deliver dst n migrants s3)))"

text \<open>The body of the loop over the nodes. The degree of a node is the number of its neighbours.\<close>

definition migrate_node ::
  "random_source \<Rightarrow> population_methods \<Rightarrow> int \<Rightarrow> Metapopulation \<Rightarrow> py_error + Metapopulation" where
  "migrate_node src ops n s =
     (case population s n of
        None \<Rightarrow> Inl KeyError
      | Some pop \<Rightarrow>
          if lower (migration_dest s) = ''single'' then migrate_single src ops n s
          else if lower (migration_dest s) = ''neighbors''
          then for_each (migrate_to_neighbor src ops n (length (neighbors s n))) (neighbors s n) s
          else Inr s)"

text \<open>The method. Its parameter \<^verbatim>\<open>single_dest\<close> is never read.\<close>

definition migrate ::
  "random_source \<Rightarrow> population_methods \<Rightarrow> Metapopulation \<Rightarrow> py_error + Metapopulation" where
  "migrate src ops s =
     (if migration_rate s = 0 then Inr s
      else for_each (migrate_node src ops) (nodes s) s)"

section \<open>Metapopulation.write_logfiles, mix, change_environment, cycle\<close>

definition write_logfiles :: "Metapopulation \<Rightarrow> py_error + Metapopulation" where
  "write_logfiles s =
     (if log_frequency s = 0 then Inl ZeroDivisionError
      else if time s mod log_frequency s = 0
      then Inr (s\<lparr>calls := calls s @ map (\<lambda>l. SinkUpdate l (time s)) (log_objects s)\<rparr>)
      else Inr s)"

text \<open>
  The first loop of \<open>mix\<close>: \<^verbatim>\<open>abundances += d['population'].abundances\<close>, an elementwise
  sum of arrays of equal length.
\<close>

fun sum_abundances :: "Metapopulation \<Rightarrow> int list \<Rightarrow> int list \<Rightarrow> py_error + int list" where
  "sum_abundances s [] acc = Inr acc"
| "sum_abundances s (n # ns) acc =
     (case population s n of
        None \<Rightarrow> Inl KeyError
      | Some p \<Rightarrow>
          if length (abundances p) \<noteq> length acc then Inl ValueError
          else sum_abundances s ns (map2 (+) acc (abundances p)))"

text \<open>
  The body of the second loop:
  \<^verbatim>\<open>d['population'].abundances = binomial(abundances, 1.0/len(self.topology))\<close>.
\<close>

definition mix_assign :: "random_source \<Rightarrow> int list \<Rightarrow> int \<Rightarrow> Metapopulation \<Rightarrow> py_error + Metapopulation" where
  "mix_assign src summed n s =
     (case population s n of
        None \<Rightarrow> Inl KeyError
      | Some p \<Rightarrow>
          if length (nodes s) = 0 then Inl ZeroDivisionError
          else (case binomial_array src summed (1 / real (length (nodes s))) (rng s) of
                  (drawn, r) \<Rightarrow>
                    Inr (s\<lparr>population := (population s)(n \<mapsto> p\<lparr>abundances := drawn\<rparr>),
                            rng := r, calls := calls s @ [PopSetAbundances n]\<rparr>)))"

definition mix :: "random_source \<Rightarrow> Metapopulation \<Rightarrow> py_error + Metapopulation" where
  "mix src s =
     (case sum_abundances s (nodes s) (replicate (length (fitness_landscape s)) 0) of
        Inl e \<Rightarrow> Inl e
      | Inr summed \<Rightarrow> for_each (mix_assign src summed) (nodes s) s)"

definition change_environment ::
  "random_source \<Rightarrow> population_methods \<Rightarrow> Metapopulation \<Rightarrow> py_error + Metapopulation" where
  "change_environment src ops s =
     (case build_fitness_landscape src (config s) (rng s) of
        Inl e \<Rightarrow> Inl e
      | Inr (landscape, r) \<Rightarrow>
          let s1 = s\<lparr>fitness_landscape := landscape, rng := r\<rparr>;
              mutation_rate_tolerance = cfg_mutation_rate_tolerance (config s1)
          in for_each
               (\<lambda>n s2.
                  case call_population (\<lambda>m. pop_bottleneck ops m mutation_rate_tolerance)
                         (PopBottleneck n mutation_rate_tolerance) n s2 of
                    Inl e \<Rightarrow> Inl e
                  | Inr s3 \<Rightarrow> call_population (pop_reset_loci ops) (PopResetLoci n) n s3)
               (nodes s1) s1)"

text \<open>The two conditions that \<open>cycle\<close> tests.\<close>

definition mix_due :: "Metapopulation \<Rightarrow> bool" where
  "mix_due s \<longleftrightarrow> mix_frequency s > 0 \<and> time s > 0 \<and> time s mod mix_frequency s = 0"

definition env_change_due :: "Metapopulation \<Rightarrow> bool" where
  "env_change_due s \<longleftrightarrow>
     env_change_frequency s > 0 \<and> time s > 0 \<and> time s mod env_change_frequency s = 0"

text \<open>The last statements of \<open>cycle\<close>: environment change or dilution, then the clock.\<close>

definition change_or_dilute ::
  "random_source \<Rightarrow> population_methods \<Rightarrow> Metapopulation \<Rightarrow> py_error + Metapopulation" where
  "change_or_dilute src ops s =
     (if env_change_due s
      then (case change_environment src ops s of
              Inl e \<Rightarrow> Inl e
            | Inr s' \<Rightarrow> Inr (s'\<lparr>environment_changed := True\<rparr>))
      else (case dilute ops (dilution_stochastic s) s of
              Inl e \<Rightarrow> Inl e
            | Inr s' \<Rightarrow> Inr (s'\<lparr>environment_changed := False\<rparr>)))"

definition cycle ::
  "random_source \<Rightarrow> population_methods \<Rightarrow> Metapopulation \<Rightarrow> py_error + Metapopulation" where
  "cycle src ops s =
     (case grow ops s of Inl e \<Rightarrow> Inl e | Inr s1 \<Rightarrow>
      case mutate ops s1 of Inl e \<Rightarrow> Inl e | Inr s2 \<Rightarrow>
      case migrate src ops s2 of Inl e \<Rightarrow> Inl e | Inr s3 \<Rightarrow>
      case census s3 of Inl e \<Rightarrow> Inl e | Inr s4 \<Rightarrow>
      case write_logfiles s4 of Inl e \<Rightarrow> Inl e | Inr s5 \<Rightarrow>
      case (if mix_due s5 then mix src s5 else Inr s5) of Inl e \<Rightarrow> Inl e | Inr s6 \<Rightarrow>
      case change_or_dilute src ops s6 of Inl e \<Rightarrow> Inl e | Inr s7 \<Rightarrow>
      Inr (s7\<lparr>time := time s7 + 1\<rparr>))"

text \<open>Calling \<open>cycle\<close> \<open>k\<close> times in a row, as the driver of a simulation does.\<close>

fun cycles ::
  "nat \<Rightarrow> random_source \<Rightarrow> population_methods \<Rightarrow> Metapopulation \<Rightarrow> py_error + Metapopulation" where
  "cycles 0 src ops s = Inr s"
| "cycles (Suc k) src ops s =
     (case cycle src ops s of Inl e \<Rightarrow> Inl e | Inr s' \<Rightarrow> cycles k src ops s')"

section \<open>Metapopulation.size, num_producers, prop_producers\<close>

definition size_metapop :: "population_methods \<Rightarrow> Metapopulation \<Rightarrow> py_error + int" where
  "size_metapop ops s =
     (case map_err (\<lambda>n. case population s n of None \<Rightarrow> Inl KeyError
                                            | Some p \<Rightarrow> Inr (pop_len ops p)) (nodes s) of
        Inl e \<Rightarrow> Inl e
      | Inr sizes \<Rightarrow> Inr (sum_list sizes))"

definition num_producers :: "population_methods \<Rightarrow> Metapopulation \<Rightarrow> py_error + int" where
  "num_producers ops s =
     (case map_err (\<lambda>n. case population s n of None \<Rightarrow> Inl KeyError
                                            | Some p \<Rightarrow> Inr (pop_num_producers ops p)) (nodes s) of
        Inl e \<Rightarrow> Inl e
      | Inr counts \<Rightarrow> Inr (sum_list counts))"

text \<open>The result of \<open>prop_producers\<close>: the text \<^verbatim>\<open>'NA'\<close> or a float.\<close>

datatype proportion = NA | Proportion real

definition prop_producers :: "population_methods \<Rightarrow> Metapopulation \<Rightarrow> py_error + proportion" where
  "prop_producers ops s =
     (case size_metapop ops s of
        Inl e \<Rightarrow> Inl e
      | Inr metapopsize \<Rightarrow>
          if metapopsize = 0 then Inr NA
          else (case num_producers ops s of
                  Inl e \<Rightarrow> Inl e
                | Inr producers \<Rightarrow>
                    (case size_metapop ops s of
                       Inl e \<Rightarrow> Inl e
                     | Inr sz \<Rightarrow>
                         if sz = 0 then Inl ZeroDivisionError
                         else Inr (Proportion (1 * real_of_int producers / real_of_int sz)))))"

section \<open>Metapopulation.__init__\<close>

text \<open>\<^verbatim>\<open>int(x)\<close> for a float: truncation towards zero.\<close>

definition py_int :: "real \<Rightarrow> int" where
  "py_int x = (if 0 \<le> x then \<lfloor>x\<rfloor> else \<lceil>x\<rceil>)"

text \<open>\<^verbatim>\<open>d['population'].abundances[i] = v\<close> for the population of node \<open>n\<close>.\<close>

definition seed_abundance :: "int \<Rightarrow> nat \<Rightarrow> int \<Rightarrow> Metapopulation \<Rightarrow> py_error + Metapopulation" where
  "seed_abundance n i v s =
     (case population s n of
        None \<Rightarrow> Inl KeyError
      | Some p \<Rightarrow>
          (case set_abundance i v p of
             Inl e \<Rightarrow> Inl e
           | Inr p' \<Rightarrow> Inr (s\<lparr>population := (population s)(n \<mapsto> p')\<rparr>)))"

text \<open>
  The body of the loop that creates the populations: node \<open>n\<close> receives a new population,
  seeded according to the initial-state policy.
\<close>

definition seed_node :: "population_methods \<Rightarrow> Config \<Rightarrow> int \<Rightarrow> Metapopulation \<Rightarrow> py_error + Metapopulation" where
  "seed_node ops cfg n s =
     (let initial_state = cfg_initial_state cfg;
          genome_length = nat (cfg_genome_length cfg);
          max_cap = cfg_capacity_max cfg;
          min_cap = cfg_capacity_min cfg;
          initial_producer_proportion = cfg_initial_producer_proportion cfg;
          mutation_rate_tolerance = cfg_mutation_rate_tolerance cfg;
          s0 = s\<lparr>population := (population s)(n \<mapsto> Population_new cfg)\<rparr>
      in if initial_state = ''corners'' then
           (if n = 0 then
              (case seed_abundance n (2 ^ genome_length) max_cap s0 of
                 Inl e \<Rightarrow> Inl e
               | Inr s1 \<Rightarrow>
                   call_population (\<lambda>m. pop_dilute ops m (dilution_stochastic m))
                     (PopDilute n (dilution_stochastic s1)) n s1)
            else if n = int (length (nodes s)) - 1 then
              (case seed_abundance n 0 min_cap s0 of
                 Inl e \<Rightarrow> Inl e
               | Inr s1 \<Rightarrow>
                   call_population (\<lambda>m. pop_dilute ops m (dilution_stochastic m))
                     (PopDilute n (dilution_stochastic s1)) n s1)
            else Inr s0)
         else if initial_state = ''stress'' then
           (let cap = py_int (real_of_int min_cap
                        + (real_of_int (max_cap - min_cap) * initial_producer_proportion));
                num_producers = py_int (real_of_int cap * initial_producer_proportion);
                num_nonproducers = cap - num_producers
            in case seed_abundance n 0 num_producers s0 of
                 Inl e \<Rightarrow> Inl e
               | Inr s1 \<Rightarrow>
                   (case seed_abundance n (2 ^ genome_length) num_nonproducers s1 of
                      Inl e \<Rightarrow> Inl e
                    | Inr s2 \<Rightarrow>
                        call_population (\<lambda>m. pop_bottleneck ops m mutation_rate_tolerance)
                          (PopBottleneck n mutation_rate_tolerance) n s2))
         else Inr s0)"

text \<open>
  The constructor. Building the graph is the work of the topology module, which is not
  among the sources: the node labels and adjacency lists of the finished graph are
  parameters, as are the random source, the position of the generator at the start and
  the behaviour of the populations. Attributes that the constructor assigns only after
  the loop over the nodes hold their final values from the start of the model's state;
  a population method called inside the loop could not read them in Python.
\<close>

definition init ::
  "random_source \<Rightarrow> population_methods \<Rightarrow> Config \<Rightarrow> int list \<Rightarrow> (int \<Rightarrow> int list) \<Rightarrow> nat \<Rightarrow>
   py_error + Metapopulation" where
  "init src ops cfg topology_nodes topology_neighbors r =
     (if \<not> (cfg_migration_rate cfg \<ge> 0 \<and> cfg_migration_rate cfg \<le> 1) then Inl AssertionError
      else if cfg_migration_dest cfg \<notin> set [''single'', ''neighbors''] then Inl AssertionError
      else if \<not> (0 \<le> cfg_migration_p_far cfg \<and> cfg_migration_p_far cfg \<le> 1) then Inl AssertionError
      else if cfg_topology cfg \<notin> set [''moore'', ''vonneumann'', ''smallworld'', ''complete'', ''regular'']
        then Inl AssertionError
      else if \<not> cfg_log_frequency cfg > 0 then Inl AssertionError
      else
        (case get_mutation_probabilities cfg of
           Inl e \<Rightarrow> Inl e
         | Inr probs \<Rightarrow>
             (case build_fitness_landscape src cfg r of
                Inl e \<Rightarrow> Inl e
              | Inr (landscape, r') \<Rightarrow>
                  let s = \<lparr>config = cfg, time = 0,
                           migration_rate = cfg_migration_rate cfg,
                           migration_dest = cfg_migration_dest cfg,
                           migration_p_far = cfg_migration_p_far cfg,
                           topology_type = cfg_topology cfg,
                           log_frequency = cfg_log_frequency cfg,
                           dilution_stochastic = cfg_dilution_stochastic cfg,
                           nodes = topology_nodes,
                           neighbors = topology_neighbors,
                           population = Map.empty,
                           mutation_probs = probs,
                           fitness_landscape = landscape,
                           mix_frequency = cfg_mix_frequency cfg,
                           environment_changed = False,
                           env_change_frequency = cfg_env_change_frequency cfg,
                           log_objects =
                             (if cfg_log_demographics cfg then [''demographics''] else []) @
                             (if cfg_log_genotypes cfg then [''genotypes''] else []) @
                             (if cfg_log_fitness cfg then [''fitness''] else []),
                           rng = r', calls = []\<rparr>
                  in (case for_each (seed_node ops cfg) topology_nodes s of
                        Inl e \<Rightarrow> Inl e
                      | Inr s' \<Rightarrow>
                          if \<not> mix_frequency s' \<ge> 0 then Inl AssertionError
                          else if \<not> env_change_frequency s' \<ge> 0 then Inl AssertionError
                          else Inr s'))))"

section \<open>Notions used to state the properties of the engine\<close>

text \<open>
  The engine's attributes apart from the parts that calls on populations may touch: the
  populations themselves, the random generator and the record of calls.
\<close>

definition engine_frame :: "Metapopulation \<Rightarrow> Metapopulation" where
  "engine_frame s = s\<lparr>population := Map.empty, rng := 0, calls := []\<rparr>"

text \<open>The calls that only migration makes.\<close>

fun is_migration_call :: "call \<Rightarrow> bool" where
  "is_migration_call (PopSelectMigrants n rate) = True"
| "is_migration_call (PopAddImmigrants n) = True"
| "is_migration_call (PopRemoveEmigrants n) = True"
| "is_migration_call c = False"

text \<open>The calls that only an environment change makes, and the calls that dilute.\<close>

fun is_env_change_call :: "call \<Rightarrow> bool" where
  "is_env_change_call (PopBottleneck n rate) = True"
| "is_env_change_call (PopResetLoci n) = True"
| "is_env_change_call c = False"

fun is_dilute_call :: "call \<Rightarrow> bool" where
  "is_dilute_call (PopDilute n stochastic) = True"
| "is_dilute_call c = False"

section \<open>Totals over the topology\<close>

text \<open>
  The number of individuals in the live abundance vectors of all nodes, and the number
  waiting in the immigrant buffers.
\<close>

definition live_total :: "Metapopulation \<Rightarrow> int" where
  "live_total s =
     (\<Sum>n\<leftarrow>nodes s. case population s n of None \<Rightarrow> 0 | Some p \<Rightarrow> sum_list (abundances p))"

definition pending_total :: "Metapopulation \<Rightarrow> int" where
  "pending_total s =
     (\<Sum>n\<leftarrow>nodes s. case population s n of None \<Rightarrow> 0 | Some p \<Rightarrow> sum_list (immigrants p))"

text \<open>
  The shape of a networkx graph whose nodes carry populations over \<open>G\<close> genotypes: node
  labels are the keys of a dictionary, so no label occurs twice; populations exist only
  at nodes; both vectors of every population have one entry per genotype.
\<close>

definition populations_wf :: "nat \<Rightarrow> Metapopulation \<Rightarrow> bool" where
  "populations_wf G s \<longleftrightarrow>
     distinct (nodes s) \<and> dom (population s) \<subseteq> set (nodes s) \<and>
     (\<forall>n p. population s n = Some p \<longrightarrow>
        length (abundances p) = G \<and> length (immigrants p) = G)"

text \<open>
  The part of the contract of \<open>select_migrants\<close> that conservation rests on: the delta
  has one entry per genotype.
\<close>

definition select_migrants_shape :: "population_methods \<Rightarrow> bool" where
  "select_migrants_shape ops \<longleftrightarrow>
     (\<forall>m rate p. length (fst (pop_select_migrants ops m rate p)) = length (abundances p))"

text \<open>The abundances with which the constructor leaves node \<open>n\<close>.\<close>

definition seeded_abundances ::
  "random_source \<Rightarrow> population_methods \<Rightarrow> Config \<Rightarrow> int list \<Rightarrow> (int \<Rightarrow> int list) \<Rightarrow> nat \<Rightarrow>
   int \<Rightarrow> py_error + int list option" where
  "seeded_abundances src ops cfg topology_nodes topology_neighbors r n =
     (case init src ops cfg topology_nodes topology_neighbors r of
        Inl e \<Rightarrow> Inl e
      | Inr s \<Rightarrow> Inr (map_option abundances (population s n)))"

section \<open>A concrete engine\<close>

text \<open>
  Population methods for the examples: growth doubles every abundance, dilution and the
  bottleneck halve it, half of every abundance is selected to migrate.
\<close>

definition example_methods :: population_methods where
  "example_methods =
     \<lparr>pop_grow = (\<lambda>m p. (p\<lparr>abundances := map (\<lambda>x. 2 * x) (abundances p)\<rparr>, rng m)),
      pop_mutate = (\<lambda>m p. (p, rng m)),
      pop_dilute = (\<lambda>m stochastic p. (p\<lparr>abundances := map (\<lambda>x. x div 2) (abundances p)\<rparr>, rng m)),
      pop_bottleneck = (\<lambda>m rate p. (p\<lparr>abundances := map (\<lambda>x. x div 2) (abundances p)\<rparr>, rng m)),
      pop_reset_loci = (\<lambda>m p. (p, rng m)),
      pop_select_migrants = (\<lambda>m rate p. (map (\<lambda>x. x div 2) (abundances p), rng m + 1)),
      pop_len = (\<lambda>p. sum_list (abundances p)),
      pop_num_producers = (\<lambda>p. sum_list (drop (length (abundances p) div 2) (abundances p)))\<rparr>"

text \<open>A path of three nodes, \<open>0 - 1 - 2\<close>.\<close>

definition example_neighbors :: "int \<Rightarrow> int list" where
  "example_neighbors n = (if n = 0 then [1] else if n = 1 then [0, 2] else if n = 2 then [1] else [])"

text \<open>An engine state on that path, over the four genotypes of a genome of length 1.\<close>

definition example_state :: Metapopulation where
  "example_state =
     \<lparr>config = example_config, time = 0, migration_rate = 1 / 2, migration_dest = ''single'',
      migration_p_far = 0, topology_type = ''complete'', log_frequency = 1,
      dilution_stochastic = False, nodes = [0, 1, 2], neighbors = example_neighbors,
      population =
        [0 \<mapsto> \<lparr>abundances = [0, 0, 8, 0], immigrants = [0, 0, 0, 0]\<rparr>,
         1 \<mapsto> \<lparr>abundances = [0, 0, 0, 0], immigrants = [0, 0, 0, 0]\<rparr>,
         2 \<mapsto> \<lparr>abundances = [4, 2, 0, 0], immigrants = [0, 0, 0, 0]\<rparr>],
      mutation_probs = [], fitness_landscape = [13 / 10, 18 / 10, 1, 15 / 10],
      mix_frequency = 0, environment_changed = False, env_change_frequency = 5,
      log_objects = [''demographics''], rng = 0, calls = []\<rparr>"

section \<open>Properties of the genotype codec\<close>

lemma bin_digits_small: "n < 2 \<Longrightarrow> bin_digits n = [n]"
  by (simp add: bin_digits.simps)

lemma bin_digits_step: "2 \<le> n \<Longrightarrow> bin_digits n = bin_digits (n div 2) @ [n mod 2]"
  by (subst bin_digits.simps) simp

lemma bin_digits_nonempty: "bin_digits n \<noteq> []"
  by (subst bin_digits.simps) simp

lemma bin_digits_bits: "d \<in> set (bin_digits n) \<Longrightarrow> d < 2"
proof (induction n arbitrary: d rule: bin_digits.induct)
  case (1 n)
  show ?case
  proof (cases "n < 2")
    case True
    with "1.prems" show ?thesis by (simp add: bin_digits_small)
  next
    case False
    then have step: "bin_digits n = bin_digits (n div 2) @ [n mod 2]"
      by (intro bin_digits_step) simp
    from "1.prems" have "d \<in> set (bin_digits (n div 2) @ [n mod 2])"
      unfolding step .
    then have "d \<in> set (bin_digits (n div 2)) \<or> d = n mod 2"
      by auto
    then show ?thesis
    proof
      assume "d \<in> set (bin_digits (n div 2))"
      with False show ?thesis by (rule "1.IH")
    next
      assume "d = n mod 2"
      then show ?thesis by simp
    qed
  qed
qed

lemma digits_value_append:
  "digits_value (xs @ ys) = digits_value xs * 2 ^ length ys + digits_value ys"
  by (induction xs) (simp_all add: power_add algebra_simps)

lemma digits_value_bin_digits: "digits_value (bin_digits n) = n"
proof (induction n rule: bin_digits.induct)
  case (1 n)
  show ?case
  proof (cases "n < 2")
    case True
    then show ?thesis by (simp add: bin_digits_small)
  next
    case False
    with "1.IH" show ?thesis
      by (simp add: bin_digits_step digits_value_append)
  qed
qed

lemma hd_bin_digits: "0 < n \<Longrightarrow> hd (bin_digits n) = 1"
proof (induction n rule: bin_digits.induct)
  case (1 n)
  show ?case
  proof (cases "n < 2")
    case True
    with "1.prems" have "n = 1" by simp
    then show ?thesis by (simp add: bin_digits_small)
  next
    case False
    then have "0 < n div 2" by simp
    with False "1.IH" show ?thesis
      by (simp add: bin_digits_step bin_digits_nonempty)
  qed
qed


text \<open>The 64-bit sum computed by the source is the machine image of the positional value.\<close>

lemma weights_Suc:
  "map (\<lambda>k. (2::64 word) ^ k) (rev [0..<Suc n]) = 2 ^ n # map (\<lambda>k. 2 ^ k) (rev [0..<n])"
  by simp

lemma bitstring_as_base10_of_nat:
  "bitstring_as_base10 (map of_nat ds) = of_nat (digits_value ds)"
  unfolding bitstring_as_base10_def
  by (induction ds) simp_all

lemma bitstring_roundtrip_word:
  "bitstring_as_base10 (map of_nat (bin_digits n)) = of_nat n"
  by (simp add: bitstring_as_base10_of_nat digits_value_bin_digits)

text \<open>The producer test reads the social bit.\<close>

lemma is_producer_bit: "is_producer g L \<longleftrightarrow> bit g L"
proof
  assume "is_producer g L"
  then have "g AND 2 ^ L \<noteq> 0" by (simp add: is_producer_def)
  then show "bit g L" by (simp add: and_exp_eq_0_iff_not_bit)
next
  assume b: "bit g L"
  have "g AND 2 ^ L = 2 ^ L"
  proof (rule bit_eqI)
    fix n
    from b show "bit (g AND 2 ^ L) n = bit ((2::nat) ^ L) n"
      by (auto simp: bit_simps)
  qed
  then show "is_producer g L" by (simp add: is_producer_def)
qed

lemma is_producer_div: "is_producer g L \<longleftrightarrow> odd (g div 2 ^ L)"
  by (simp add: is_producer_bit bit_iff_odd)


lemma decode_then_encode_word:
  "0 \<le> g \<Longrightarrow> decode_then_encode g = Inr (sint (word_of_int g :: 64 word))"
  by (simp add: decode_then_encode_def base10_as_bitarray_def bitstring_roundtrip_word)

lemma sint_int64_small:
  "0 \<le> g \<Longrightarrow> g < 2 ^ 63 \<Longrightarrow> sint (word_of_int g :: 64 word) = g"
  by (simp add: sint_sbintrunc' signed_take_bit_int_eq_self)

text \<open>
  Claim C10, as stated, fails: the genotype \<open>2 ^ 63\<close> decodes to a one followed by 63
  zeros, and encoding that sequence in 64-bit arithmetic wraps around to \<open>- 2 ^ 63\<close>.
\<close>

theorem C10_roundtrip_overflow_counterexample:
  "decode_then_encode (2 ^ 63) = Inr (- (2 ^ 63)) \<and> decode_then_encode (2 ^ 63) \<noteq> Inr (2 ^ 63)"
  by (simp add: decode_then_encode_word)

text \<open>
  Claim C10 (amended): for every genotype \<open>g\<close> with \<open>0 \<le> g < 2 ^ 63\<close>, decoding and
  encoding again returns \<open>g\<close>. For every \<open>g \<ge> 0\<close> the decoded sequence is the binary
  expansion of \<open>g\<close>, most significant digit first: its digits are 0 or 1, their
  positional value is \<open>g\<close>, the leading digit is 1 when \<open>g\<close> is positive, and the
  sequence for 0 is the single digit 0.
\<close>

theorem C10_roundtrip:
  "(0 \<le> g \<and> g < 2 ^ 63 \<longrightarrow> decode_then_encode g = Inr g) \<and>
   (0 \<le> g \<longrightarrow>
      base10_as_bitarray g = Inr (map of_nat (bin_digits (nat g))) \<and>
      (\<forall>d \<in> set (bin_digits (nat g)). d = 0 \<or> d = 1) \<and>
      int (digits_value (bin_digits (nat g))) = g \<and>
      (0 < g \<longrightarrow> hd (bin_digits (nat g)) = 1)) \<and>
   base10_as_bitarray 0 = Inr [0]"
proof (intro conjI impI ballI)
  assume "0 \<le> g \<and> g < 2 ^ 63"
  then show "decode_then_encode g = Inr g"
    by (simp add: decode_then_encode_word sint_int64_small)
next
  assume "0 \<le> g"
  then show "base10_as_bitarray g = Inr (map of_nat (bin_digits (nat g)))"
    by (simp add: base10_as_bitarray_def)
next
  fix d assume "d \<in> set (bin_digits (nat g))"
  then have "d < 2" by (rule bin_digits_bits)
  then show "d = 0 \<or> d = 1" by auto
next
  assume "0 \<le> g"
  then show "int (digits_value (bin_digits (nat g))) = g"
    by (simp add: digits_value_bin_digits)
next
  assume "0 < g"
  then have "0 < nat g" by simp
  then show "hd (bin_digits (nat g)) = 1" by (rule hd_bin_digits)
next
  show "base10_as_bitarray 0 = Inr [0]"
    by (simp add: base10_as_bitarray_def bin_digits_small)
qed

theorem C10_roundtrip_witness:
  "decode_then_encode 6 = Inr 6 \<and>
   base10_as_bitarray 6 = Inr [1, 1, 0] \<and>
   digits_value [1, 1, 0] = 6"
proof -
  have d: "bin_digits (nat 6) = [1, 1, 0]"
    by (simp add: bin_digits.simps)
  from C10_roundtrip [of 6] d show ?thesis by simp
qed

section \<open>Properties of the fitness landscape\<close>


lemma length_fixed_digits: "length (fixed_digits n i) = n"
  by (induction n arbitrary: i) simp_all












section \<open>Properties of the mutation matrix\<close>


lemma popcount_small: "n < 2 \<Longrightarrow> popcount n = n"
proof -
  assume "n < 2"
  then have "n = 0 \<or> n = 1" by auto
  then show ?thesis by (auto simp: popcount_def bin_digits_small)
qed

lemma popcount_step: "popcount n = popcount (n div 2) + n mod 2"
proof (cases "n < 2")
  case True
  then have "n div 2 = 0" "n mod 2 = n" by simp_all
  with True show ?thesis by (simp add: popcount_small)
next
  case False
  then have step: "bin_digits n = bin_digits (n div 2) @ [n mod 2]"
    by (intro bin_digits_step) simp
  have "n mod 2 = 0 \<or> n mod 2 = 1" by auto
  then show ?thesis
    unfolding popcount_def step by auto
qed

lemma popcount_double: "popcount (2 * n + b) = popcount n + b" if "b < 2"
  using that popcount_step [of "2 * n + b"] by simp

lemma popcount_split: "popcount n = popcount (take_bit L n) + popcount (drop_bit L n)"
proof (induction L arbitrary: n)
  case 0
  then show ?case by (simp add: popcount_small)
next
  case (Suc L)
  have "popcount n = popcount (n div 2) + n mod 2" by (rule popcount_step)
  also have "popcount (n div 2) = popcount (take_bit L (n div 2)) + popcount (drop_bit L (n div 2))"
    by (rule Suc.IH)
  also have "drop_bit L (n div 2) = drop_bit (Suc L) n"
    by (simp add: drop_bit_Suc)
  finally have a: "popcount n = popcount (take_bit L (n div 2)) + popcount (drop_bit (Suc L) n) + n mod 2"
    by simp
  have "popcount (take_bit (Suc L) n) = popcount (take_bit (Suc L) n div 2) + take_bit (Suc L) n mod 2"
    by (rule popcount_step)
  also have "take_bit (Suc L) n div 2 = take_bit L (n div 2)"
    by (simp add: take_bit_Suc)
  also have "take_bit (Suc L) n mod 2 = n mod 2"
    by (simp add: take_bit_Suc)
  finally show ?case using a by simp
qed

lemma popcount_le: "n < 2 ^ L \<Longrightarrow> popcount n \<le> L"
proof (induction L arbitrary: n)
  case 0
  then show ?case by (simp add: popcount_small)
next
  case (Suc L)
  then have "n div 2 < 2 ^ L" by simp
  then have "popcount (n div 2) \<le> L" by (rule Suc.IH)
  moreover have "n mod 2 \<le> 1" by simp
  ultimately show ?case using popcount_step [of n] by simp
qed


lemma xor_less_exp: "a < 2 ^ L \<Longrightarrow> b < 2 ^ L \<Longrightarrow> a XOR b < (2::nat) ^ L"
proof -
  assume "a < 2 ^ L" "b < 2 ^ L"
  then have "take_bit L a = a" "take_bit L b = b" by (simp_all add: take_bit_nat_eq_self_iff)
  then have "take_bit L (a XOR b) = a XOR b" by (simp add: take_bit_xor)
  then show ?thesis by (simp only: take_bit_nat_eq_self_iff)
qed

lemma popcount_xor_step:
  "popcount (a XOR b) = popcount ((a div 2) XOR (b div 2)) + of_bool (odd a \<noteq> odd b)"
proof -
  have "a XOR b = 2 * ((a div 2) XOR (b div 2)) + of_bool (odd a \<noteq> odd b)"
    by (subst xor_rec) simp
  moreover have "(of_bool (odd a \<noteq> odd b) :: nat) < 2" by simp
  ultimately show ?thesis by (simp only: popcount_double)
qed

lemma sum_pairs: "(\<Sum>a<2 * n. F a) = (\<Sum>a<n. F (2 * a) + F (2 * a + 1))" for F :: "nat \<Rightarrow> real"
  by (induction n) (simp_all add: algebra_simps)

lemma flip_weight_merge:
  "d \<le> L \<Longrightarrow> flip_weight m (Suc L) d + flip_weight m (Suc L) (Suc d) = flip_weight m L d"
proof -
  assume "d \<le> L"
  then have "Suc L - d = Suc (L - d)" by simp
  then show ?thesis
    by (simp add: flip_weight_def algebra_simps)
qed

lemma adaptation_sum:
  "ai < 2 ^ L \<Longrightarrow> (\<Sum>a<2 ^ L. flip_weight m L (popcount (a XOR ai))) = 1"
proof (induction L arbitrary: ai)
  case 0
  then show ?case by (simp add: flip_weight_def popcount_small)
next
  case (Suc L)
  define bi where "bi = ai div 2"
  from Suc.prems have bi: "bi < 2 ^ L" by (simp add: bi_def)
  have pair: "flip_weight m (Suc L) (popcount ((2 * a) XOR ai))
            + flip_weight m (Suc L) (popcount ((2 * a + 1) XOR ai))
            = flip_weight m L (popcount (a XOR bi))" if "a < 2 ^ L" for a
  proof -
    from that bi have "a XOR bi < 2 ^ L" by (rule xor_less_exp)
    then have le: "popcount (a XOR bi) \<le> L" by (rule popcount_le)
    have e: "popcount ((2 * a) XOR ai) = popcount (a XOR bi) + of_bool (odd ai)"
      using popcount_xor_step [of "2 * a" ai] by (simp add: bi_def)
    have o: "popcount ((2 * a + 1) XOR ai) = popcount (a XOR bi) + of_bool (even ai)"
      using popcount_xor_step [of "2 * a + 1" ai] by (simp add: bi_def)
    show ?thesis
    proof (cases "odd ai")
      case True
      with e o flip_weight_merge [OF le, of m] show ?thesis by (simp add: add.commute)
    next
      case False
      with e o flip_weight_merge [OF le, of m] show ?thesis by simp
    qed
  qed
  have "(\<Sum>a<2 ^ Suc L. flip_weight m (Suc L) (popcount (a XOR ai)))
        = (\<Sum>a<2 ^ L. flip_weight m (Suc L) (popcount ((2 * a) XOR ai))
                       + flip_weight m (Suc L) (popcount ((2 * a + 1) XOR ai)))"
    using sum_pairs [of "\<lambda>a. flip_weight m (Suc L) (popcount (a XOR ai))" "2 ^ L"] by simp
  also have "\<dots> = (\<Sum>a<2 ^ L. flip_weight m L (popcount (a XOR bi)))"
  proof (rule sum.cong)
    fix a assume "a \<in> {..<(2::nat) ^ L}"
    then have "a < 2 ^ L" by simp
    then show "flip_weight m (Suc L) (popcount ((2 * a) XOR ai))
                 + flip_weight m (Suc L) (popcount ((2 * a + 1) XOR ai))
               = flip_weight m L (popcount (a XOR bi))"
      by (rule pair)
  qed simp
  also have "\<dots> = 1" using bi by (rule Suc.IH)
  finally show ?case .
qed



lemma map2_same: "map2 f (map g xs) (map h xs) = map (\<lambda>x. f (g x) (h x)) xs"
  by (induction xs) simp_all

lemma mat_map2_table:
  "mat_map2 f (map (\<lambda>i. map (a i) js) is) (map (\<lambda>i. map (b i) js) is)
     = map (\<lambda>i. map (\<lambda>j. f (a i j) (b i j)) js) is"
  unfolding mat_map2_def by (simp add: map2_same)

lemma mat_map_table:
  "mat_map f (map (\<lambda>i. map (a i) js) is) = map (\<lambda>i. map (\<lambda>j. f (a i j)) js) is"
  unfolding mat_map_def by simp

lemma social_matrix_table:
  "social_matrix L = map (\<lambda>i. map (social_differs L i) [0..<2 ^ (L + 1)]) [0..<2 ^ (L + 1)]"
proof -
  have r1: "replicate (2 ^ L) (0::int) @ replicate (2 ^ L) 1
            = map (social_differs L i) [0..<2 ^ (L + 1)]" if "i < 2 ^ L" for i
    using that by (auto simp: social_differs_def nth_append intro!: nth_equalityI)
  have r2: "replicate (2 ^ L) (1::int) @ replicate (2 ^ L) 0
            = map (social_differs L i) [0..<2 ^ (L + 1)]" if "\<not> i < 2 ^ L" for i
    using that by (auto simp: social_differs_def nth_append intro!: nth_equalityI)
  show ?thesis
    unfolding social_matrix_def
    by (rule nth_equalityI) (auto simp: nth_append r1 r2)
qed

lemma hamming_distances_table:
  "hamming_distances L
     = map (\<lambda>i. map (\<lambda>j. int (hamming_distance j i)) [0..<2 ^ (L + 1)]) [0..<2 ^ (L + 1)]"
proof -
  have xx: "replicate (2 ^ (L + 1)) [0..<2 ^ (L + 1)]
            = map (\<lambda>i. map (\<lambda>j. j) [0..<2 ^ (L + 1)]) [0..<2 ^ (L + 1)]"
    by (simp add: map_replicate_const)
  have yy: "map (\<lambda>g. replicate (2 ^ (L + 1)) g) [0..<2 ^ (L + 1)]
            = map (\<lambda>i. map (\<lambda>j. i) [0..<2 ^ (L + 1)]) [0..<2 ^ (L + 1)]"
    by (simp add: map_replicate_const)
  show ?thesis
    unfolding hamming_distances_def Let_def length_upt diff_zero xx yy
    by (simp only: mat_map2_table)
qed

lemma of_bool_social: "(of_bool (social_differs L i j = 0) :: int) = 1 - social_differs L i j"
  by (simp add: social_differs_def)

lemma get_mutation_probabilities_table:
  assumes "0 \<le> cfg_genome_length cfg"
  shows "get_mutation_probabilities cfg =
           Inr (map (\<lambda>i. map (mutation_entry cfg i) [0..<2 ^ (nat (cfg_genome_length cfg) + 1)])
                  [0..<2 ^ (nat (cfg_genome_length cfg) + 1)])"
  using assms
  unfolding get_mutation_probabilities_def Let_def
  by (simp only: social_matrix_table hamming_distances_table mat_map2_table mat_map_table
        Let_def of_bool_social) (simp add: mutation_entry_def Let_def)


lemma sum_halves:
  "(\<Sum>j<N + M. F j) = (\<Sum>a<N. F a) + (\<Sum>a<M. F (a + N))" for F :: "nat \<Rightarrow> real"
  by (induction M) (simp_all add: add.commute)

lemma hamming_distance_popcount: "hamming_distance a b = popcount (a XOR b)"
  by (simp add: hamming_distance_def popcount_def)

lemma drop_bit_social:
  "i < 2 ^ (L + 1) \<Longrightarrow> drop_bit L i = (if i < 2 ^ L then 0 else 1 :: nat)"
proof (cases "i < 2 ^ L")
  case True
  then show ?thesis by (simp add: drop_bit_eq_div)
next
  case False
  assume "i < 2 ^ (L + 1)"
  then have "i < 2 * 2 ^ L" by simp
  then have "i div 2 ^ L < 2" by (simp add: less_mult_imp_div_less)
  moreover from False have "0 < i div 2 ^ L" by (simp add: div_greater_zero_iff)
  ultimately have "i div 2 ^ L = 1" by simp
  with False show ?thesis by (simp add: drop_bit_eq_div)
qed

lemma nonsocial_distance:
  assumes "x < 2 ^ (L + 1)" and "i < 2 ^ (L + 1)"
  shows "int (hamming_distance x i) - social_differs L i x
           = int (popcount (take_bit L x XOR take_bit L i))"
proof -
  have "popcount (x XOR i)
          = popcount (take_bit L (x XOR i)) + popcount (drop_bit L (x XOR i))"
    by (rule popcount_split)
  also have "take_bit L (x XOR i) = take_bit L x XOR take_bit L i"
    by (simp add: take_bit_xor)
  also have "drop_bit L (x XOR i) = drop_bit L x XOR drop_bit L i"
    by (simp add: drop_bit_xor)
  finally have "popcount (x XOR i) = popcount (take_bit L x XOR take_bit L i)
                  + popcount (drop_bit L x XOR drop_bit L i)" .
  moreover have "int (popcount (drop_bit L x XOR drop_bit L i)) = social_differs L i x"
    using assms by (simp add: drop_bit_social social_differs_def popcount_small)
  ultimately show ?thesis
    by (simp add: hamming_distance_popcount)
qed

lemma nonsocial_low:
  assumes "a < 2 ^ L" and "i < 2 ^ (L + 1)"
  shows "int (hamming_distance a i) - social_differs L i a = int (popcount (a XOR take_bit L i))"
    and "int (hamming_distance (a + 2 ^ L) i) - social_differs L i (a + 2 ^ L)
           = int (popcount (a XOR take_bit L i))"
proof -
  from assms(1) have t1: "take_bit L a = a" by (simp add: take_bit_nat_eq_self)
  from assms(1) have t2: "take_bit L (a + 2 ^ L) = a" by (simp add: take_bit_eq_mod)
  from assms(1) have b1: "a < 2 ^ (L + 1)" and b2: "a + 2 ^ L < 2 ^ (L + 1)" by simp_all
  from nonsocial_distance [OF b1 assms(2)] t1
  show "int (hamming_distance a i) - social_differs L i a = int (popcount (a XOR take_bit L i))"
    by simp
  from nonsocial_distance [OF b2 assms(2)] t2
  show "int (hamming_distance (a + 2 ^ L) i) - social_differs L i (a + 2 ^ L)
           = int (popcount (a XOR take_bit L i))"
    by simp
qed

lemma npower_nat: "npower x (int n) = x ^ n"
  by (simp add: npower_def)

lemma mutation_entry_low:
  assumes "0 \<le> cfg_genome_length cfg" and "a < 2 ^ nat (cfg_genome_length cfg)"
    and "i < 2 ^ (nat (cfg_genome_length cfg) + 1)"
  shows "mutation_entry cfg i a + mutation_entry cfg i (a + 2 ^ nat (cfg_genome_length cfg))
           = flip_weight (cfg_mutation_rate_adaptation cfg) (nat (cfg_genome_length cfg))
               (popcount (a XOR take_bit (nat (cfg_genome_length cfg)) i))"
proof -
  define L where "L = nat (cfg_genome_length cfg)"
  define d where "d = popcount (a XOR take_bit L i)"
  from assms(2) have a: "a < 2 ^ L" by (simp add: L_def)
  from assms(3) have i: "i < 2 ^ (L + 1)" by (simp add: L_def)
  have "take_bit L i < 2 ^ L" by simp
  with a have "a XOR take_bit L i < 2 ^ L" by (rule xor_less_exp)
  then have dL: "d \<le> L" unfolding d_def by (rule popcount_le)
  then have exp: "int L - int d = int (L - d)" by simp
  have h1: "int (hamming_distance a i) - social_differs L i a = int d"
    and h2: "int (hamming_distance (a + 2 ^ L) i) - social_differs L i (a + 2 ^ L) = int d"
    unfolding d_def using nonsocial_low [OF a i] by simp_all
  have s1: "social_differs L i a = (if i < 2 ^ L then 0 else 1)"
    using a by (simp add: social_differs_def)
  have s2: "social_differs L i (a + 2 ^ L) = (if i < 2 ^ L then 1 else 0)"
    by (simp add: social_differs_def)
  have g1: "mutation_entry cfg i a =
      npower (1 - cfg_mutation_rate_adaptation cfg) (int L - int d) *
      npower (cfg_mutation_rate_adaptation cfg) (int d) *
      npower (1 - cfg_mutation_rate_social cfg) (1 - social_differs L i a) *
      npower (cfg_mutation_rate_social cfg) (social_differs L i a)"
    by (simp only: mutation_entry_def Let_def L_def [symmetric] h1)
  have g2: "mutation_entry cfg i (a + 2 ^ L) =
      npower (1 - cfg_mutation_rate_adaptation cfg) (int L - int d) *
      npower (cfg_mutation_rate_adaptation cfg) (int d) *
      npower (1 - cfg_mutation_rate_social cfg) (1 - social_differs L i (a + 2 ^ L)) *
      npower (cfg_mutation_rate_social cfg) (social_differs L i (a + 2 ^ L))"
    by (simp only: mutation_entry_def Let_def L_def [symmetric] h2)
  have e1: "mutation_entry cfg i a =
      flip_weight (cfg_mutation_rate_adaptation cfg) L d *
      (if i < 2 ^ L then 1 - cfg_mutation_rate_social cfg else cfg_mutation_rate_social cfg)"
    unfolding g1 exp npower_nat flip_weight_def s1
    by (simp add: npower_def)
  have e2: "mutation_entry cfg i (a + 2 ^ L) =
      flip_weight (cfg_mutation_rate_adaptation cfg) L d *
      (if i < 2 ^ L then cfg_mutation_rate_social cfg else 1 - cfg_mutation_rate_social cfg)"
    unfolding g2 exp npower_nat flip_weight_def s2
    by (simp add: npower_def)
  show ?thesis
    unfolding L_def [symmetric] d_def [symmetric] e1 e2
    by (simp add: algebra_simps)
qed

lemma is_producer_top: "i < 2 ^ (L + 1) \<Longrightarrow> is_producer i L \<longleftrightarrow> \<not> i < 2 ^ L"
  using drop_bit_social [of i L]
  by (simp add: is_producer_div drop_bit_eq_div split: if_splits)

lemma mutation_entry_spec:
  assumes "0 \<le> cfg_genome_length cfg"
    and "i < 2 ^ (nat (cfg_genome_length cfg) + 1)" and "j < 2 ^ (nat (cfg_genome_length cfg) + 1)"
  shows "mutation_entry cfg i j =
           spec_mutation_entry (cfg_mutation_rate_social cfg) (cfg_mutation_rate_adaptation cfg)
             (nat (cfg_genome_length cfg)) i j"
proof -
  define L where "L = nat (cfg_genome_length cfg)"
  define d where "d = hamming_distance (take_bit L i) (take_bit L j)"
  from assms have i: "i < 2 ^ (L + 1)" and j: "j < 2 ^ (L + 1)" by (simp_all add: L_def)
  have "take_bit L i < 2 ^ L" "take_bit L j < 2 ^ L" by simp_all
  then have "take_bit L i XOR take_bit L j < 2 ^ L" by (rule xor_less_exp)
  then have dL: "d \<le> L" unfolding d_def hamming_distance_popcount by (rule popcount_le)
  then have exp: "int L - int d = int (L - d)" by simp
  have h: "int (hamming_distance j i) - social_differs L i j = int d"
    using nonsocial_distance [OF j i]
    by (simp add: d_def hamming_distance_popcount xor.commute)
  have s: "social_differs L i j = int (if is_producer i L = is_producer j L then 0 else 1)"
    using i j by (simp add: social_differs_def is_producer_top)
  have g: "mutation_entry cfg i j =
      npower (1 - cfg_mutation_rate_adaptation cfg) (int L - int d) *
      npower (cfg_mutation_rate_adaptation cfg) (int d) *
      npower (1 - cfg_mutation_rate_social cfg) (1 - social_differs L i j) *
      npower (cfg_mutation_rate_social cfg) (social_differs L i j)"
    by (simp only: mutation_entry_def Let_def L_def [symmetric] h)
  show ?thesis
    unfolding g exp npower_nat s spec_mutation_entry_def Let_def L_def [symmetric] d_def [symmetric]
    by (simp add: npower_def)
qed

lemma mutation_rows:
  assumes "0 \<le> cfg_genome_length cfg" and "i < 2 ^ (nat (cfg_genome_length cfg) + 1)"
  shows "\<exists>mr. get_mutation_probabilities cfg = Inr mr \<and>
           length mr = 2 ^ (nat (cfg_genome_length cfg) + 1) \<and>
           mr ! i = map (mutation_entry cfg i) [0..<2 ^ (nat (cfg_genome_length cfg) + 1)] \<and>
           sum_list (mr ! i) = 1"
proof -
  define L where "L = nat (cfg_genome_length cfg)"
  define mr where "mr = map (\<lambda>i. map (mutation_entry cfg i) [0..<2 ^ (L + 1)]) [0..<2 ^ (L + 1)]"
  have run: "get_mutation_probabilities cfg = Inr mr"
    unfolding mr_def L_def using assms(1) by (rule get_mutation_probabilities_table)
  have len: "length mr = 2 ^ (L + 1)" by (simp add: mr_def)
  from assms(2) have i: "i < 2 ^ (L + 1)" by (simp add: L_def)
  then have row: "mr ! i = map (mutation_entry cfg i) [0..<2 ^ (L + 1)]"
    by (simp add: mr_def)
  have ti: "take_bit L i < 2 ^ L" by simp
  have "sum_list (mr ! i) = (\<Sum>j<2 ^ L + 2 ^ L. mutation_entry cfg i j)"
    unfolding row by (simp add: interv_sum_list_conv_sum_set_nat atLeast0LessThan mult_2)
  also have "\<dots> = (\<Sum>a<2 ^ L. mutation_entry cfg i a) + (\<Sum>a<2 ^ L. mutation_entry cfg i (a + 2 ^ L))"
    by (rule sum_halves)
  also have "\<dots> = (\<Sum>a<2 ^ L. mutation_entry cfg i a + mutation_entry cfg i (a + 2 ^ L))"
    by (simp add: sum.distrib)
  also have "\<dots> = (\<Sum>a<2 ^ L. flip_weight (cfg_mutation_rate_adaptation cfg) L
                        (popcount (a XOR take_bit L i)))"
  proof (rule sum.cong)
    fix a assume "a \<in> {..<(2::nat) ^ L}"
    then have "a < 2 ^ nat (cfg_genome_length cfg)" by (simp add: L_def)
    from mutation_entry_low [OF assms(1) this assms(2)]
    show "mutation_entry cfg i a + mutation_entry cfg i (a + 2 ^ L)
            = flip_weight (cfg_mutation_rate_adaptation cfg) L (popcount (a XOR take_bit L i))"
      by (simp add: L_def)
  qed simp
  also have "\<dots> = 1" using ti by (rule adaptation_sum)
  finally have "sum_list (mr ! i) = 1" .
  with run len row show ?thesis unfolding L_def [symmetric] by blast
qed


text \<open>
  Claim C2: for a genome length \<open>L \<ge> 0\<close> and any two mutation rates, the method returns
  a matrix of \<open>2 ^ (L + 1)\<close> rows whose entry \<open>[i][j]\<close> is
  \<open>(1 - m_a) ^ (L - H_a) * m_a ^ H_a * (1 - m_s) ^ (1 - S) * m_s ^ S\<close>, with \<open>H_a\<close> the
  Hamming distance of the adaptation loci of \<open>i\<close> and \<open>j\<close> and \<open>S\<close> the indicator that
  their social bits differ, and every row sums to exactly 1 (in exact arithmetic).
\<close>

theorem C2_mutation_rows_sum_to_one:
  assumes "0 \<le> cfg_genome_length cfg" and "i < 2 ^ (nat (cfg_genome_length cfg) + 1)"
  shows "\<exists>mr. get_mutation_probabilities cfg = Inr mr \<and>
           length mr = 2 ^ (nat (cfg_genome_length cfg) + 1) \<and>
           mr ! i = map (spec_mutation_entry (cfg_mutation_rate_social cfg)
                      (cfg_mutation_rate_adaptation cfg) (nat (cfg_genome_length cfg)) i)
                      [0..<2 ^ (nat (cfg_genome_length cfg) + 1)] \<and>
           (\<Sum>j<2 ^ (nat (cfg_genome_length cfg) + 1).
              spec_mutation_entry (cfg_mutation_rate_social cfg)
                (cfg_mutation_rate_adaptation cfg) (nat (cfg_genome_length cfg)) i j) = 1 \<and>
           sum_list (mr ! i) = 1"
proof -
  define G where "G = (2::nat) ^ (nat (cfg_genome_length cfg) + 1)"
  define entry where "entry = spec_mutation_entry (cfg_mutation_rate_social cfg)
    (cfg_mutation_rate_adaptation cfg) (nat (cfg_genome_length cfg)) i"
  from mutation_rows [OF assms] obtain mr where
    run: "get_mutation_probabilities cfg = Inr mr" and
    len: "length mr = G" and
    row: "mr ! i = map (mutation_entry cfg i) [0..<G]" and
    one: "sum_list (mr ! i) = 1"
    unfolding G_def by blast
  have same: "map (mutation_entry cfg i) [0..<G] = map entry [0..<G]"
  proof (rule map_cong)
    fix j assume "j \<in> set [0..<G]"
    then have "j < 2 ^ (nat (cfg_genome_length cfg) + 1)" by (simp add: G_def)
    with assms show "mutation_entry cfg i j = entry j"
      unfolding entry_def by (rule mutation_entry_spec)
  qed simp
  with row have row': "mr ! i = map entry [0..<G]" by simp
  have "(\<Sum>j<G. entry j) = sum_list (map entry [0..<G])"
    by (simp add: interv_sum_list_conv_sum_set_nat atLeast0LessThan)
  with one row' have "(\<Sum>j<G. entry j) = 1" by simp
  with run len row' one show ?thesis
    unfolding G_def entry_def by blast
qed

theorem C2_mutation_rows_sum_to_one_witness:
  "0 \<le> cfg_genome_length example_config \<and>
   (2::nat) < 2 ^ (nat (cfg_genome_length example_config) + 1) \<and>
   (\<exists>mr. get_mutation_probabilities example_config = Inr mr \<and>
      length mr = 4 \<and> sum_list (mr ! 2) = 1)"
proof -
  have h1: "0 \<le> cfg_genome_length example_config"
    and h2: "(2::nat) < 2 ^ (nat (cfg_genome_length example_config) + 1)"
    by (simp_all add: example_config_def)
  from C2_mutation_rows_sum_to_one [OF h1 h2]
  obtain mr where "get_mutation_probabilities example_config = Inr mr"
    and "length mr = 2 ^ (nat (cfg_genome_length example_config) + 1)"
    and "sum_list (mr ! 2) = 1"
    by blast
  moreover from this(2) have "length mr = 4" by (simp add: example_config_def)
  ultimately show ?thesis using h1 h2 by blast
qed

section \<open>What the engine's operations leave alone, and the calls they make\<close>


lemma engine_frame_fields:
  assumes "engine_frame s' = engine_frame s"
  shows "config s' = config s" "time s' = time s" "migration_rate s' = migration_rate s"
    "migration_dest s' = migration_dest s" "migration_p_far s' = migration_p_far s"
    "topology_type s' = topology_type s" "log_frequency s' = log_frequency s"
    "dilution_stochastic s' = dilution_stochastic s" "nodes s' = nodes s"
    "neighbors s' = neighbors s" "mutation_probs s' = mutation_probs s"
    "fitness_landscape s' = fitness_landscape s" "mix_frequency s' = mix_frequency s"
    "environment_changed s' = environment_changed s"
    "env_change_frequency s' = env_change_frequency s" "log_objects s' = log_objects s"
proof -
  have "config (engine_frame s') = config (engine_frame s)" by (simp only: assms)
  then show "config s' = config s" by (simp add: engine_frame_def)
  have "time (engine_frame s') = time (engine_frame s)" by (simp only: assms)
  then show "time s' = time s" by (simp add: engine_frame_def)
  have "migration_rate (engine_frame s') = migration_rate (engine_frame s)" by (simp only: assms)
  then show "migration_rate s' = migration_rate s" by (simp add: engine_frame_def)
  have "migration_dest (engine_frame s') = migration_dest (engine_frame s)" by (simp only: assms)
  then show "migration_dest s' = migration_dest s" by (simp add: engine_frame_def)
  have "migration_p_far (engine_frame s') = migration_p_far (engine_frame s)" by (simp only: assms)
  then show "migration_p_far s' = migration_p_far s" by (simp add: engine_frame_def)
  have "topology_type (engine_frame s') = topology_type (engine_frame s)" by (simp only: assms)
  then show "topology_type s' = topology_type s" by (simp add: engine_frame_def)
  have "log_frequency (engine_frame s') = log_frequency (engine_frame s)" by (simp only: assms)
  then show "log_frequency s' = log_frequency s" by (simp add: engine_frame_def)
  have "dilution_stochastic (engine_frame s') = dilution_stochastic (engine_frame s)"
    by (simp only: assms)
  then show "dilution_stochastic s' = dilution_stochastic s" by (simp add: engine_frame_def)
  have "nodes (engine_frame s') = nodes (engine_frame s)" by (simp only: assms)
  then show "nodes s' = nodes s" by (simp add: engine_frame_def)
  have "neighbors (engine_frame s') = neighbors (engine_frame s)" by (simp only: assms)
  then show "neighbors s' = neighbors s" by (simp add: engine_frame_def)
  have "mutation_probs (engine_frame s') = mutation_probs (engine_frame s)" by (simp only: assms)
  then show "mutation_probs s' = mutation_probs s" by (simp add: engine_frame_def)
  have "fitness_landscape (engine_frame s') = fitness_landscape (engine_frame s)"
    by (simp only: assms)
  then show "fitness_landscape s' = fitness_landscape s" by (simp add: engine_frame_def)
  have "mix_frequency (engine_frame s') = mix_frequency (engine_frame s)" by (simp only: assms)
  then show "mix_frequency s' = mix_frequency s" by (simp add: engine_frame_def)
  have "environment_changed (engine_frame s') = environment_changed (engine_frame s)"
    by (simp only: assms)
  then show "environment_changed s' = environment_changed s" by (simp add: engine_frame_def)
  have "env_change_frequency (engine_frame s') = env_change_frequency (engine_frame s)"
    by (simp only: assms)
  then show "env_change_frequency s' = env_change_frequency s" by (simp add: engine_frame_def)
  have "log_objects (engine_frame s') = log_objects (engine_frame s)" by (simp only: assms)
  then show "log_objects s' = log_objects s" by (simp add: engine_frame_def)
qed

lemma for_each_append:
  "for_each body (xs @ ys) s =
     (case for_each body xs s of Inl e \<Rightarrow> Inl e | Inr s' \<Rightarrow> for_each body ys s')"
  by (induction xs arbitrary: s) (simp_all split: sum.splits)

lemma for_each_calls:
  assumes step: "\<And>x t t'. body x t = Inr t' \<Longrightarrow>
                   engine_frame t' = engine_frame t \<and> calls t' = calls t @ c x"
  shows "for_each body xs s = Inr s' \<Longrightarrow>
           engine_frame s' = engine_frame s \<and> calls s' = calls s @ concat (map c xs)"
proof (induction xs arbitrary: s)
  case Nil
  then show ?case by simp
next
  case (Cons x xs)
  from Cons.prems obtain t where t: "body x s = Inr t" and rest: "for_each body xs t = Inr s'"
    by (auto split: sum.splits)
  from step [OF t] Cons.IH [OF rest] show ?case by simp
qed

lemma for_each_some_calls:
  assumes step: "\<And>x t t'. body x t = Inr t' \<Longrightarrow>
                   engine_frame t' = engine_frame t \<and>
                   (\<exists>cs. calls t' = calls t @ cs \<and> (\<forall>c \<in> set cs. Q c))"
  shows "for_each body xs s = Inr s' \<Longrightarrow>
           engine_frame s' = engine_frame s \<and>
           (\<exists>cs. calls s' = calls s @ cs \<and> (\<forall>c \<in> set cs. Q c))"
proof (induction xs arbitrary: s)
  case Nil
  then show ?case by simp
next
  case (Cons x xs)
  from Cons.prems obtain t where t: "body x s = Inr t" and rest: "for_each body xs t = Inr s'"
    by (auto split: sum.splits)
  from step [OF t] obtain cs1 where
    f1: "engine_frame t = engine_frame s" and c1: "calls t = calls s @ cs1" and q1: "\<forall>c \<in> set cs1. Q c"
    by blast
  from Cons.IH [OF rest] obtain cs2 where
    f2: "engine_frame s' = engine_frame t" and c2: "calls s' = calls t @ cs2" and q2: "\<forall>c \<in> set cs2. Q c"
    by blast
  from c1 c2 have "calls s' = calls s @ (cs1 @ cs2)" by simp
  moreover from q1 q2 have "\<forall>c \<in> set (cs1 @ cs2). Q c" by auto
  ultimately show ?case using f1 f2 by metis
qed

lemma call_population_effect:
  assumes "call_population method c n s = Inr s'"
  shows "engine_frame s' = engine_frame s" and "calls s' = calls s @ [c]"
  using assms
  by (auto simp: call_population_def engine_frame_def split: option.splits prod.splits)



lemma node_loop_effect:
  assumes "for_each (\<lambda>n. call_population (method n) (c n) n) ns s = Inr s'"
  shows "engine_frame s' = engine_frame s" and "calls s' = calls s @ map c ns"
proof -
  have "engine_frame s' = engine_frame s \<and> calls s' = calls s @ concat (map (\<lambda>n. [c n]) ns)"
    using _ assms
  proof (rule for_each_calls)
    fix x t t'
    assume "call_population (method x) (c x) x t = Inr t'"
    then show "engine_frame t' = engine_frame t \<and> calls t' = calls t @ [c x]"
      using call_population_effect by blast
  qed
  moreover have "concat (map (\<lambda>n. [c n]) ns) = map c ns"
    by (induction ns) simp_all
  ultimately show "engine_frame s' = engine_frame s" and "calls s' = calls s @ map c ns"
    by simp_all
qed

lemma grow_effect:
  assumes "grow ops s = Inr s'"
  shows "engine_frame s' = engine_frame s" and "calls s' = calls s @ map PopGrow (nodes s)"
  using assms unfolding grow_def by (rule node_loop_effect)+

lemma mutate_effect:
  assumes "mutate ops s = Inr s'"
  shows "engine_frame s' = engine_frame s" and "calls s' = calls s @ map PopMutate (nodes s)"
  using assms unfolding mutate_def by (rule node_loop_effect)+

lemma census_effect:
  assumes "census s = Inr s'"
  shows "engine_frame s' = engine_frame s" and "calls s' = calls s @ map PopCensus (nodes s)"
  using assms unfolding census_def by (rule node_loop_effect)+

lemma dilute_effect:
  assumes "dilute ops stochastic s = Inr s'"
  shows "engine_frame s' = engine_frame s"
    and "calls s' = calls s @ map (\<lambda>n. PopDilute n stochastic) (nodes s)"
  using assms unfolding dilute_def by (rule node_loop_effect)+

lemma write_logfiles_effect:
  assumes "write_logfiles s = Inr s'"
  shows "engine_frame s' = engine_frame s"
    and "calls s' = calls s @
           (if time s mod log_frequency s = 0 then map (\<lambda>l. SinkUpdate l (time s)) (log_objects s)
            else [])"
    and "population s' = population s" and "rng s' = rng s"
  using assms by (auto simp: write_logfiles_def engine_frame_def split: if_splits)

lemma select_migrants_effect:
  assumes "select_migrants ops n rate s = Inr (migrants, s')"
  shows "engine_frame s' = engine_frame s" and "calls s' = calls s @ [PopSelectMigrants n rate]"
    and "population s' = population s"
  using assms
  by (auto simp: select_migrants_def engine_frame_def split: option.splits prod.splits)

lemma deliver_effect:
  assumes "deliver dst n migrants s = Inr s'"
  shows "engine_frame s' = engine_frame s"
    and "calls s' = calls s @ [PopAddImmigrants dst, PopRemoveEmigrants n]"
  using assms
  by (auto simp: deliver_def engine_frame_def Let_def split: option.splits)



lemma rng_update_effect:
  "engine_frame (s\<lparr>rng := r\<rparr>) = engine_frame s" "calls (s\<lparr>rng := r\<rparr>) = calls s"
  by (simp_all add: engine_frame_def)

lemma migrate_single_effect:
  assumes "migrate_single src ops n s = Inr s'"
  shows "engine_frame s' = engine_frame s \<and>
         (\<exists>cs. calls s' = calls s @ cs \<and> (\<forall>c \<in> set cs. is_migration_call c))"
proof -
  from assms obtain migrants s1 where
    sel: "select_migrants ops n (migration_rate s) s = Inr (migrants, s1)"
    by (auto simp: migrate_single_def split: sum.splits prod.splits)
  with assms obtain dst r3 where
    del: "deliver dst n migrants (s1\<lparr>rng := r3\<rparr>) = Inr s'"
    by (auto simp: migrate_single_def split: sum.splits prod.splits if_splits)
  from select_migrants_effect(1,2) [OF sel] deliver_effect [OF del]
  have "engine_frame s' = engine_frame s"
    and "calls s' = calls s @ [PopSelectMigrants n (migration_rate s),
                               PopAddImmigrants dst, PopRemoveEmigrants n]"
    by (simp_all add: rng_update_effect)
  then show ?thesis by auto
qed

lemma migrate_to_neighbor_effect:
  assumes "migrate_to_neighbor src ops n k nb s = Inr s'"
  shows "engine_frame s' = engine_frame s \<and>
         (\<exists>cs. calls s' = calls s @ cs \<and> (\<forall>c \<in> set cs. is_migration_call c))"
proof -
  obtain far r1 where b: "binomial src 1 (migration_p_far s) (rng s) = (far, r1)"
    by (cases "binomial src 1 (migration_p_far s) (rng s)")
  define choice where "choice =
    (if far = 1 then random_integers src 0 (int (length (nodes s)) - 1) r1 else Inr (nb, r1))"
  have run: "(case choice of
               Inl e \<Rightarrow> Inl e
             | Inr (dst, r2) \<Rightarrow>
                 if k = 0 then Inl ZeroDivisionError
                 else (case select_migrants ops n (migration_rate s / real k) (s\<lparr>rng := r2\<rparr>) of
                         Inl e \<Rightarrow> Inl e
                       | Inr (migrants, s3) \<Rightarrow> deliver dst n migrants s3)) = Inr s'"
    using assms unfolding migrate_to_neighbor_def b choice_def by simp
  then obtain dst r2 where c: "choice = Inr (dst, r2)"
    by (cases choice) auto
  with run have k: "k \<noteq> 0"
    and run2: "(case select_migrants ops n (migration_rate s / real k) (s\<lparr>rng := r2\<rparr>) of
                  Inl e \<Rightarrow> Inl e
                | Inr (migrants, s3) \<Rightarrow> deliver dst n migrants s3) = Inr s'"
    by (simp_all split: if_splits)
  then obtain migrants s3 where
    sel: "select_migrants ops n (migration_rate s / real k) (s\<lparr>rng := r2\<rparr>) = Inr (migrants, s3)"
    by (cases "select_migrants ops n (migration_rate s / real k) (s\<lparr>rng := r2\<rparr>)") auto
  with run2 have del: "deliver dst n migrants s3 = Inr s'" by simp
  from select_migrants_effect(1,2) [OF sel] deliver_effect [OF del]
  have "engine_frame s' = engine_frame s"
    and "calls s' = calls s @ [PopSelectMigrants n (migration_rate s / real k),
                               PopAddImmigrants dst, PopRemoveEmigrants n]"
    by (simp_all add: rng_update_effect)
  then show ?thesis by auto
qed

lemma migrate_node_cases:
  assumes "migrate_node src ops n s = Inr s'"
  obtains
    (single) "migrate_single src ops n s = Inr s'"
  | (nbrs) "for_each (migrate_to_neighbor src ops n (length (neighbors s n))) (neighbors s n) s = Inr s'"
  | (none) "s' = s"
proof (cases "population s n")
  case None
  with assms show ?thesis by (simp add: migrate_node_def)
next
  case (Some pop)
  show ?thesis
  proof (cases "lower (migration_dest s) = ''single''")
    case True
    with assms Some have "migrate_single src ops n s = Inr s'"
      by (simp add: migrate_node_def)
    then show ?thesis by (rule single)
  next
    case False
    note not_single = False
    show ?thesis
    proof (cases "lower (migration_dest s) = ''neighbors''")
      case True
      with assms Some not_single
      have "for_each (migrate_to_neighbor src ops n (length (neighbors s n))) (neighbors s n) s = Inr s'"
        by (simp add: migrate_node_def)
      then show ?thesis by (rule nbrs)
    next
      case False
      with assms Some not_single have "Inr s = (Inr s' :: py_error + Metapopulation)"
        by (simp add: migrate_node_def)
      then have "s' = s" by simp
      then show ?thesis by (rule none)
    qed
  qed
qed

lemma migrate_node_effect:
  assumes "migrate_node src ops n s = Inr s'"
  shows "engine_frame s' = engine_frame s \<and>
         (\<exists>cs. calls s' = calls s @ cs \<and> (\<forall>c \<in> set cs. is_migration_call c))"
  using assms
proof (cases rule: migrate_node_cases)
  case single
  then show ?thesis by (rule migrate_single_effect)
next
  case nbrs
  show ?thesis
    using _ nbrs
  proof (rule for_each_some_calls)
    fix x t t'
    assume "migrate_to_neighbor src ops n (length (neighbors s n)) x t = Inr t'"
    then show "engine_frame t' = engine_frame t \<and>
       (\<exists>cs. calls t' = calls t @ cs \<and> (\<forall>c \<in> set cs. is_migration_call c))"
      by (rule migrate_to_neighbor_effect)
  qed
next
  case none
  then show ?thesis by simp
qed

lemma migrate_effect:
  assumes "migrate src ops s = Inr s'"
  shows "engine_frame s' = engine_frame s \<and>
         (\<exists>cs. calls s' = calls s @ cs \<and> (\<forall>c \<in> set cs. is_migration_call c))"
proof (cases "migration_rate s = 0")
  case True
  with assms have "s' = s" by (simp add: migrate_def)
  then show ?thesis by simp
next
  case False
  with assms have loop: "for_each (migrate_node src ops) (nodes s) s = Inr s'"
    by (simp add: migrate_def)
  show ?thesis
    using _ loop
  proof (rule for_each_some_calls)
    fix x t t'
    assume "migrate_node src ops x t = Inr t'"
    then show "engine_frame t' = engine_frame t \<and>
       (\<exists>cs. calls t' = calls t @ cs \<and> (\<forall>c \<in> set cs. is_migration_call c))"
      by (rule migrate_node_effect)
  qed
qed



lemma sum_Inr_case:
  assumes "(case m of Inl e \<Rightarrow> Inl e | Inr x \<Rightarrow> f x) = Inr y"
  obtains x where "m = Inr x" and "f x = Inr y"
  using assms by (cases m) auto

lemma mix_assign_effect:
  assumes "mix_assign src summed n s = Inr s'"
  shows "engine_frame s' = engine_frame s \<and> calls s' = calls s @ [PopSetAbundances n]"
proof (cases "population s n")
  case None
  with assms show ?thesis by (simp add: mix_assign_def)
next
  case (Some p)
  obtain drawn r where
    d: "binomial_array src summed (1 / real (length (nodes s))) (rng s) = (drawn, r)"
    by (cases "binomial_array src summed (1 / real (length (nodes s))) (rng s)")
  from assms Some d have
    "s' = s\<lparr>population := (population s)(n \<mapsto> p\<lparr>abundances := drawn\<rparr>),
             rng := r, calls := calls s @ [PopSetAbundances n]\<rparr>"
    by (simp add: mix_assign_def split: if_splits)
  then show ?thesis by (simp add: engine_frame_def)
qed

lemma mix_effect:
  assumes "mix src s = Inr s'"
  shows "engine_frame s' = engine_frame s"
    and "calls s' = calls s @ map PopSetAbundances (nodes s)"
proof -
  from assms obtain summed where loop: "for_each (mix_assign src summed) (nodes s) s = Inr s'"
    unfolding mix_def by (rule sum_Inr_case)
  have "engine_frame s' = engine_frame s \<and>
        calls s' = calls s @ concat (map (\<lambda>n. [PopSetAbundances n]) (nodes s))"
    using _ loop
  proof (rule for_each_calls)
    fix x t t'
    assume "mix_assign src summed x t = Inr t'"
    then show "engine_frame t' = engine_frame t \<and> calls t' = calls t @ [PopSetAbundances x]"
      by (rule mix_assign_effect)
  qed
  moreover have "concat (map (\<lambda>n. [PopSetAbundances n]) (nodes s)) = map PopSetAbundances (nodes s)"
    by (induction "nodes s") simp_all
  ultimately show "engine_frame s' = engine_frame s"
    and "calls s' = calls s @ map PopSetAbundances (nodes s)"
    by simp_all
qed

text \<open>The calls of an environment change, for a given list of nodes.\<close>

lemma change_environment_effect:
  assumes "change_environment src ops s = Inr s'"
  shows "\<exists>landscape r.
           build_fitness_landscape src (config s) (rng s) = Inr (landscape, r) \<and>
           engine_frame s' = engine_frame (s\<lparr>fitness_landscape := landscape\<rparr>) \<and>
           calls s' = calls s @
             concat (map (\<lambda>n. [PopBottleneck n (cfg_mutation_rate_tolerance (config s)),
                                PopResetLoci n]) (nodes s))"
proof -
  define tol where "tol = cfg_mutation_rate_tolerance (config s)"
  define body where "body = (\<lambda>n s2.
     case call_population (\<lambda>m. pop_bottleneck ops m tol) (PopBottleneck n tol) n s2 of
       Inl e \<Rightarrow> Inl e
     | Inr s3 \<Rightarrow> call_population (pop_reset_loci ops) (PopResetLoci n) n s3)"
  from assms obtain p where
    b: "build_fitness_landscape src (config s) (rng s) = Inr p" and
    rest: "(case p of (landscape, r) \<Rightarrow>
             let s1 = s\<lparr>fitness_landscape := landscape, rng := r\<rparr>;
                 mutation_rate_tolerance = cfg_mutation_rate_tolerance (config s1)
             in for_each
                  (\<lambda>n s2.
                     case call_population (\<lambda>m. pop_bottleneck ops m mutation_rate_tolerance)
                            (PopBottleneck n mutation_rate_tolerance) n s2 of
                       Inl e \<Rightarrow> Inl e
                     | Inr s3 \<Rightarrow> call_population (pop_reset_loci ops) (PopResetLoci n) n s3)
                  (nodes s1) s1) = Inr s'"
    unfolding change_environment_def by (rule sum_Inr_case)
  obtain landscape r where p: "p = (landscape, r)" by (cases p)
  define s1 where "s1 = s\<lparr>fitness_landscape := landscape, rng := r\<rparr>"
  from rest have loop: "for_each body (nodes s) s1 = Inr s'"
    unfolding p body_def tol_def s1_def by (simp add: Let_def)
  have "engine_frame s' = engine_frame s1 \<and>
        calls s' = calls s1 @ concat (map (\<lambda>n. [PopBottleneck n tol, PopResetLoci n]) (nodes s))"
    using _ loop
  proof (rule for_each_calls)
    fix x t t'
    assume "body x t = Inr t'"
    then obtain t1 where
      c1: "call_population (\<lambda>m. pop_bottleneck ops m tol) (PopBottleneck x tol) x t = Inr t1" and
      c2: "call_population (pop_reset_loci ops) (PopResetLoci x) x t1 = Inr t'"
      unfolding body_def by (rule sum_Inr_case)
    from call_population_effect [OF c1] call_population_effect [OF c2]
    show "engine_frame t' = engine_frame t \<and> calls t' = calls t @ [PopBottleneck x tol, PopResetLoci x]"
      by simp
  qed
  moreover have "engine_frame s1 = engine_frame (s\<lparr>fitness_landscape := landscape\<rparr>)"
    and "calls s1 = calls s"
    by (simp_all add: s1_def engine_frame_def)
  ultimately show ?thesis
    using b p unfolding tol_def by auto
qed



lemma due_frame:
  assumes "engine_frame a = engine_frame b"
  shows "mix_due a = mix_due b" and "env_change_due a = env_change_due b"
  using engine_frame_fields [OF assms] by (simp_all add: mix_due_def env_change_due_def)

lemma change_or_dilute_cases:
  assumes "change_or_dilute src ops s = Inr s'"
  obtains s7 where
    "if env_change_due s then change_environment src ops s = Inr s7
     else dilute ops (dilution_stochastic s) s = Inr s7"
    and "s' = s7\<lparr>environment_changed := env_change_due s\<rparr>"
proof (cases "env_change_due s")
  case True
  with assms have "(case change_environment src ops s of
                      Inl e \<Rightarrow> Inl e
                    | Inr t \<Rightarrow> Inr (t\<lparr>environment_changed := True\<rparr>)) = Inr s'"
    by (simp add: change_or_dilute_def)
  then obtain t where "change_environment src ops s = Inr t"
    and "Inr (t\<lparr>environment_changed := True\<rparr>) = (Inr s' :: py_error + Metapopulation)"
    by (rule sum_Inr_case)
  with True that [of t] show ?thesis by simp
next
  case False
  with assms have "(case dilute ops (dilution_stochastic s) s of
                      Inl e \<Rightarrow> Inl e
                    | Inr t \<Rightarrow> Inr (t\<lparr>environment_changed := False\<rparr>)) = Inr s'"
    by (simp add: change_or_dilute_def)
  then obtain t where "dilute ops (dilution_stochastic s) s = Inr t"
    and "Inr (t\<lparr>environment_changed := False\<rparr>) = (Inr s' :: py_error + Metapopulation)"
    by (rule sum_Inr_case)
  with False that [of t] show ?thesis by simp
qed

lemma cycle_structure:
  assumes "cycle src ops s = Inr s'"
  shows "\<exists>s6 s7 ms.
           engine_frame s6 = engine_frame s \<and>
           calls s6 = calls s @ map PopGrow (nodes s) @ map PopMutate (nodes s) @ ms @
                        map PopCensus (nodes s) @
                        (if time s mod log_frequency s = 0
                         then map (\<lambda>l. SinkUpdate l (time s)) (log_objects s) else []) @
                        (if mix_due s then map PopSetAbundances (nodes s) else []) \<and>
           (\<forall>c \<in> set ms. is_migration_call c) \<and>
           (if env_change_due s then change_environment src ops s6 = Inr s7
            else dilute ops (dilution_stochastic s) s6 = Inr s7) \<and>
           s' = s7\<lparr>environment_changed := env_change_due s, time := time s7 + 1\<rparr>"
proof -
  from assms obtain s1 where g: "grow ops s = Inr s1" and
    r1: "(case mutate ops s1 of Inl e \<Rightarrow> Inl e | Inr s2 \<Rightarrow>
          case migrate src ops s2 of Inl e \<Rightarrow> Inl e | Inr s3 \<Rightarrow>
          case census s3 of Inl e \<Rightarrow> Inl e | Inr s4 \<Rightarrow>
          case write_logfiles s4 of Inl e \<Rightarrow> Inl e | Inr s5 \<Rightarrow>
          case (if mix_due s5 then mix src s5 else Inr s5) of Inl e \<Rightarrow> Inl e | Inr s6 \<Rightarrow>
          case change_or_dilute src ops s6 of Inl e \<Rightarrow> Inl e | Inr s7 \<Rightarrow>
          Inr (s7\<lparr>time := time s7 + 1\<rparr>)) = Inr s'"
    unfolding cycle_def by (rule sum_Inr_case)
  from r1 obtain s2 where m: "mutate ops s1 = Inr s2" and
    r2: "(case migrate src ops s2 of Inl e \<Rightarrow> Inl e | Inr s3 \<Rightarrow>
          case census s3 of Inl e \<Rightarrow> Inl e | Inr s4 \<Rightarrow>
          case write_logfiles s4 of Inl e \<Rightarrow> Inl e | Inr s5 \<Rightarrow>
          case (if mix_due s5 then mix src s5 else Inr s5) of Inl e \<Rightarrow> Inl e | Inr s6 \<Rightarrow>
          case change_or_dilute src ops s6 of Inl e \<Rightarrow> Inl e | Inr s7 \<Rightarrow>
          Inr (s7\<lparr>time := time s7 + 1\<rparr>)) = Inr s'"
    by (rule sum_Inr_case)
  from r2 obtain s3 where mg: "migrate src ops s2 = Inr s3" and
    r3: "(case census s3 of Inl e \<Rightarrow> Inl e | Inr s4 \<Rightarrow>
          case write_logfiles s4 of Inl e \<Rightarrow> Inl e | Inr s5 \<Rightarrow>
          case (if mix_due s5 then mix src s5 else Inr s5) of Inl e \<Rightarrow> Inl e | Inr s6 \<Rightarrow>
          case change_or_dilute src ops s6 of Inl e \<Rightarrow> Inl e | Inr s7 \<Rightarrow>
          Inr (s7\<lparr>time := time s7 + 1\<rparr>)) = Inr s'"
    by (rule sum_Inr_case)
  from r3 obtain s4 where c: "census s3 = Inr s4" and
    r4: "(case write_logfiles s4 of Inl e \<Rightarrow> Inl e | Inr s5 \<Rightarrow>
          case (if mix_due s5 then mix src s5 else Inr s5) of Inl e \<Rightarrow> Inl e | Inr s6 \<Rightarrow>
          case change_or_dilute src ops s6 of Inl e \<Rightarrow> Inl e | Inr s7 \<Rightarrow>
          Inr (s7\<lparr>time := time s7 + 1\<rparr>)) = Inr s'"
    by (rule sum_Inr_case)
  from r4 obtain s5 where w: "write_logfiles s4 = Inr s5" and
    r5: "(case (if mix_due s5 then mix src s5 else Inr s5) of Inl e \<Rightarrow> Inl e | Inr s6 \<Rightarrow>
          case change_or_dilute src ops s6 of Inl e \<Rightarrow> Inl e | Inr s7 \<Rightarrow>
          Inr (s7\<lparr>time := time s7 + 1\<rparr>)) = Inr s'"
    by (rule sum_Inr_case)
  from r5 obtain s6 where x: "(if mix_due s5 then mix src s5 else Inr s5) = Inr s6" and
    r6: "(case change_or_dilute src ops s6 of Inl e \<Rightarrow> Inl e | Inr s7 \<Rightarrow>
          Inr (s7\<lparr>time := time s7 + 1\<rparr>)) = Inr s'"
    by (rule sum_Inr_case)
  from r6 obtain s7' where cd: "change_or_dilute src ops s6 = Inr s7'" and
    fin: "Inr (s7'\<lparr>time := time s7' + 1\<rparr>) = (Inr s' :: py_error + Metapopulation)"
    by (rule sum_Inr_case)
  from cd obtain s7 where
    last: "if env_change_due s6 then change_environment src ops s6 = Inr s7
           else dilute ops (dilution_stochastic s6) s6 = Inr s7" and
    s7': "s7' = s7\<lparr>environment_changed := env_change_due s6\<rparr>"
    by (rule change_or_dilute_cases)
  from migrate_effect [OF mg] obtain ms where
    f3: "engine_frame s3 = engine_frame s2" and c3: "calls s3 = calls s2 @ ms" and
    q: "\<forall>c \<in> set ms. is_migration_call c"
    by blast
  note f1 = grow_effect(1) [OF g] and c1 = grow_effect(2) [OF g]
  note f2 = mutate_effect(1) [OF m] and c2 = mutate_effect(2) [OF m]
  note f4 = census_effect(1) [OF c] and c4 = census_effect(2) [OF c]
  note f5 = write_logfiles_effect(1) [OF w] and c5 = write_logfiles_effect(2) [OF w]
  have e1: "engine_frame s1 = engine_frame s" by (rule f1)
  have e2: "engine_frame s2 = engine_frame s" using f2 e1 by simp
  have e3: "engine_frame s3 = engine_frame s" using f3 e2 by simp
  have e4: "engine_frame s4 = engine_frame s" using f4 e3 by simp
  have e5: "engine_frame s5 = engine_frame s" using f5 e4 by simp
  have f6: "engine_frame s6 = engine_frame s5"
    and c6: "calls s6 = calls s5 @ (if mix_due s5 then map PopSetAbundances (nodes s5) else [])"
  proof -
    show "engine_frame s6 = engine_frame s5"
    proof (cases "mix_due s5")
      case True
      with x have "mix src s5 = Inr s6" by simp
      then show ?thesis by (rule mix_effect(1))
    next
      case False
      with x show ?thesis by simp
    qed
    show "calls s6 = calls s5 @ (if mix_due s5 then map PopSetAbundances (nodes s5) else [])"
    proof (cases "mix_due s5")
      case True
      with x have "mix src s5 = Inr s6" by simp
      with True show ?thesis by (simp add: mix_effect(2))
    next
      case False
      with x show ?thesis by simp
    qed
  qed
  have e6: "engine_frame s6 = engine_frame s" using f6 e5 by simp
  have n1: "nodes s1 = nodes s" and n2: "nodes s2 = nodes s" and n3: "nodes s3 = nodes s"
    and n4: "nodes s4 = nodes s" and n5: "nodes s5 = nodes s"
    using engine_frame_fields(9) [OF e1] engine_frame_fields(9) [OF e2]
      engine_frame_fields(9) [OF e3] engine_frame_fields(9) [OF e4]
      engine_frame_fields(9) [OF e5] by simp_all
  have t4: "time s4 = time s" "log_frequency s4 = log_frequency s" "log_objects s4 = log_objects s"
    using engine_frame_fields(2,7,16) [OF e4] by simp_all
  have calls6: "calls s6 = calls s @ map PopGrow (nodes s) @ map PopMutate (nodes s) @ ms @
                        map PopCensus (nodes s) @
                        (if time s mod log_frequency s = 0
                         then map (\<lambda>l. SinkUpdate l (time s)) (log_objects s) else []) @
                        (if mix_due s then map PopSetAbundances (nodes s) else [])"
    unfolding c6 c5 c4 c3 c2 c1 n1 n2 n3 n4 n5 t4 due_frame(1) [OF e5] by simp
  have last': "if env_change_due s then change_environment src ops s6 = Inr s7
               else dilute ops (dilution_stochastic s) s6 = Inr s7"
    using last due_frame(2) [OF e6] engine_frame_fields(8) [OF e6]
    by (auto split: if_splits)
  from fin s7' have "s' = s7\<lparr>environment_changed := env_change_due s, time := time s7 + 1\<rparr>"
    using due_frame(2) [OF e6] by auto
  with e6 calls6 q last' show ?thesis by blast
qed

section \<open>Migration at rate zero\<close>


text \<open>
  Claim C8: if the migration rate is exactly 0, \<open>migrate\<close> returns at once and without
  error: the state after the call is the state before it, so no population's abundances
  or immigrant buffer changed, no population method was called and the random
  generator did not advance.
\<close>

theorem C8_migrate_rate_zero_noop:
  "migration_rate s = 0 \<Longrightarrow> migrate src ops s = Inr s"
  by (simp add: migrate_def)

theorem C8_migrate_rate_zero_noop_witness:
  "migration_rate (example_state\<lparr>migration_rate := 0\<rparr>) = 0 \<and>
   migrate example_source example_methods (example_state\<lparr>migration_rate := 0\<rparr>)
     = Inr (example_state\<lparr>migration_rate := 0\<rparr>)"
proof -
  have h: "migration_rate (example_state\<lparr>migration_rate := 0\<rparr>) = 0" by simp
  from C8_migrate_rate_zero_noop [OF h] h show ?thesis by blast
qed

section \<open>The proportion of producers\<close>

lemma size_metapop_error: "size_metapop ops s = Inl e \<Longrightarrow> e = KeyError"
proof -
  have "map_err (\<lambda>n. case population s n of None \<Rightarrow> Inl KeyError
                                         | Some p \<Rightarrow> Inr (f p)) ns = Inl e \<Longrightarrow> e = KeyError"
    for ns :: "int list" and f :: "Population \<Rightarrow> int"
    by (induction ns) (auto split: option.splits sum.splits)
  then show "size_metapop ops s = Inl e \<Longrightarrow> e = KeyError"
    by (auto simp: size_metapop_def split: sum.splits)
qed

lemma num_producers_error: "num_producers ops s = Inl e \<Longrightarrow> e = KeyError"
proof -
  have "map_err (\<lambda>n. case population s n of None \<Rightarrow> Inl KeyError
                                         | Some p \<Rightarrow> Inr (f p)) ns = Inl e \<Longrightarrow> e = KeyError"
    for ns :: "int list" and f :: "Population \<Rightarrow> int"
    by (induction ns) (auto split: option.splits sum.splits)
  then show "num_producers ops s = Inl e \<Longrightarrow> e = KeyError"
    by (auto simp: num_producers_def split: sum.splits)
qed

text \<open>
  Claim C9: when the size of the metapopulation is 0, \<open>prop_producers\<close> returns the
  sentinel \<open>NA\<close>; when the size is positive it returns the number of producers divided
  by the size; in no case does it raise ZeroDivisionError.
\<close>

theorem C9_prop_producers:
  "(size_metapop ops s = Inr 0 \<longrightarrow> prop_producers ops s = Inr NA) \<and>
   (\<forall>sz k. size_metapop ops s = Inr sz \<and> 0 < sz \<and> num_producers ops s = Inr k \<longrightarrow>
      prop_producers ops s = Inr (Proportion (real_of_int k / real_of_int sz))) \<and>
   prop_producers ops s \<noteq> Inl ZeroDivisionError"
proof (intro conjI allI impI)
  assume "size_metapop ops s = Inr 0"
  then show "prop_producers ops s = Inr NA" by (simp add: prop_producers_def)
next
  fix sz k
  assume "size_metapop ops s = Inr sz \<and> 0 < sz \<and> num_producers ops s = Inr k"
  then show "prop_producers ops s = Inr (Proportion (real_of_int k / real_of_int sz))"
    by (simp add: prop_producers_def)
next
  show "prop_producers ops s \<noteq> Inl ZeroDivisionError"
  proof
    assume a: "prop_producers ops s = Inl ZeroDivisionError"
    show False
    proof (cases "size_metapop ops s")
      case (Inl e)
      with a size_metapop_error [OF Inl] show False by (simp add: prop_producers_def)
    next
      case (Inr sz)
      show False
      proof (cases "num_producers ops s")
        case (Inl e)
        with a Inr num_producers_error [OF Inl] show False
          by (simp add: prop_producers_def split: if_splits)
      next
        case k: (Inr k)
        with a Inr show False by (simp add: prop_producers_def split: if_splits)
      qed
    qed
  qed
qed

theorem C9_prop_producers_witness:
  "size_metapop example_methods example_state = Inr 14 \<and>
   num_producers example_methods example_state = Inr 8 \<and>
   prop_producers example_methods example_state = Inr (Proportion (8 / 14)) \<and>
   size_metapop example_methods (example_state\<lparr>nodes := []\<rparr>) = Inr 0 \<and>
   prop_producers example_methods (example_state\<lparr>nodes := []\<rparr>) = Inr NA"
proof -
  have sz: "size_metapop example_methods example_state = Inr 14"
    by (simp add: size_metapop_def example_state_def example_methods_def)
  have np: "num_producers example_methods example_state = Inr 8"
    by (simp add: num_producers_def example_state_def example_methods_def)
  have z: "size_metapop example_methods (example_state\<lparr>nodes := []\<rparr>) = Inr 0"
    by (simp add: size_metapop_def)
  from C9_prop_producers [of example_methods example_state] sz np
  have "prop_producers example_methods example_state = Inr (Proportion (8 / 14))"
    by simp
  moreover from C9_prop_producers [of example_methods "example_state\<lparr>nodes := []\<rparr>"] z
  have "prop_producers example_methods (example_state\<lparr>nodes := []\<rparr>) = Inr NA"
    by blast
  ultimately show ?thesis using sz np z by blast
qed


end
